theory Spec2Isabelle
  imports Main "HOL-Library.AList" "HOL-Library.Sublist" "HOL-Library.Code_Target_Nat"
begin

section \<open>Values, errors and effects\<close>

text \<open>
  A JavaScript exception is an error object with a name and a message; the worker only
  ever reads \<open>error.message\<close>. A computation that may throw returns \<open>Inl\<close> of the
  error, otherwise \<open>Inr\<close> of its value.
\<close>

datatype js_error = Error (name: string) (message: string)

type_synonym 'a result = "js_error + 'a"

text \<open>
  The values stored in the \<open>metadata\<close> object: numbers and strings. \<open>JUntracked\<close> is
  a number the model does not follow (the byte length of a freshly encoded JPEG).
  An object is the list of its properties in insertion order; assigning to a property
  replaces its value in place or appends it.
\<close>

datatype jsval = JNum nat | JStr string | JUntracked

type_synonym js_object = "(string \<times> jsval) list"

definition set_prop :: "string \<Rightarrow> jsval \<Rightarrow> js_object \<Rightarrow> js_object" where
  "set_prop k v obj = AList.update k v obj"

definition get_prop :: "js_object \<Rightarrow> string \<Rightarrow> jsval option" where
  "get_prop obj k = map_of obj k"

definition field_names :: "js_object \<Rightarrow> string list" where
  "field_names obj = map fst obj"

section \<open>Data model\<close>

text \<open>
  A row of the \<open>media\<close> table of \<open>schema.sql\<close>. Identifiers are kept in the textual
  form in which the queue message and the request carry them; nullable columns are
  options.
\<close>

record media_row =
  row_id :: string
  user_id :: string
  s3_key :: string
  file_name :: string
  file_type :: string
  status :: string
  metadata :: "js_object option"
  thumbnail_key :: "string option"
  error_message :: "string option"
  created_at :: nat
  updated_at :: nat
  processed_at :: "nat option"

text \<open>The columns the listing query selects.\<close>

record listing_row =
  lr_id :: string
  lr_file_name :: string
  lr_file_type :: string
  lr_status :: string
  lr_thumbnail_key :: "string option"
  lr_metadata :: "js_object option"
  lr_created_at :: nat
  lr_processed_at :: "nat option"

text \<open>
  The content of a buffer. \<open>Picture w h f\<close> stands for any encoded image that the image
  library decodes to \<open>w\<close> by \<open>h\<close> pixels of format \<open>f\<close> (the pixels are not modelled);
  \<open>Bytes bs\<close> is a literal byte string.
\<close>

datatype blob = Picture nat nat string | Bytes "nat list"

fun byteLength :: "blob \<Rightarrow> nat option" where
  "byteLength (Bytes bs) = Some (length bs)"
| "byteLength (Picture w h f) = None"

record s3_object =
  Body :: blob
  ContentLength :: "nat option"
  ContentType :: string

record cache_entry =
  payload :: "listing_row list"
  expires_at :: nat

text \<open>
  The state outside the two programs: the \<open>media\<close> table, the bucket, the cache, the
  database clock read by \<open>NOW()\<close>, and the outcomes of the coming requests to the
  three services. Each awaited request takes the head of \<open>faults\<close>: \<open>None\<close> is a
  request that is served, \<open>Some e\<close> one that is rejected with \<open>e\<close> (connection lost,
  timeout); past the end of the list every request is served.
\<close>

record world =
  media :: "media_row list"
  s3 :: "(string \<times> s3_object) list"
  redis :: "(string \<times> cache_entry) list"
  now :: nat
  faults :: "js_error option list"

type_synonym 'a io = "world \<Rightarrow> 'a result \<times> world"

definition ret :: "'a \<Rightarrow> 'a io" where
  "ret x w = (Inr x, w)"

definition throw :: "js_error \<Rightarrow> 'a io" where
  "throw e w = (Inl e, w)"

definition lift :: "'a result \<Rightarrow> 'a io" where
  "lift r w = (r, w)"

text \<open>\<open>await f; g\<close>: an exception of \<open>f\<close> skips \<open>g\<close>.\<close>

definition bind :: "'a io \<Rightarrow> ('a \<Rightarrow> 'b io) \<Rightarrow> 'b io" where
  "bind f g w = (case f w of (Inl e, w') \<Rightarrow> (Inl e, w') | (Inr x, w') \<Rightarrow> g x w')"

text \<open>\<open>try { f } catch (error) { h error }\<close>.\<close>

definition try_catch :: "'a io \<Rightarrow> (js_error \<Rightarrow> 'a io) \<Rightarrow> 'a io" where
  "try_catch f h w = (case f w of (Inl e, w') \<Rightarrow> h e w' | (Inr x, w') \<Rightarrow> (Inr x, w'))"

definition service_call :: "unit io" where
  "service_call w =
     (case faults w of
        [] \<Rightarrow> (Inr (), w)
      | None # fs \<Rightarrow> (Inr (), w\<lparr>faults := fs\<rparr>)
      | Some e # fs \<Rightarrow> (Inl e, w\<lparr>faults := fs\<rparr>))"

section \<open>The worker's database writes\<close>

text \<open>
  \<open>updateMediaStatus(mediaId, status, errorMessage = null)\<close>:
  \<^verbatim>\<open>UPDATE media SET status = $1, error_message = $2, updated_at = NOW() WHERE id = $3\<close>.
  A missing \<open>mediaId\<close> is sent as NULL, and \<open>id = NULL\<close> selects no row.
\<close>

definition updateMediaStatus :: "string option \<Rightarrow> string \<Rightarrow> string option \<Rightarrow> unit io" where
  "updateMediaStatus mediaId st errorMessage =
     bind service_call (\<lambda>_ w.
       (Inr (), w\<lparr>media :=
          map (\<lambda>r. if Some (row_id r) = mediaId
                    then r\<lparr>status := st, error_message := errorMessage, updated_at := now w\<rparr>
                    else r) (media w)\<rparr>))"

text \<open>
  \<open>updateMediaMetadata(mediaId, metadata, status)\<close>:
  \<^verbatim>\<open>UPDATE media SET status = $1, metadata = $2, thumbnail_key = $3,
  processed_at = NOW(), updated_at = NOW() WHERE id = $4\<close>
  with \<open>$3 = metadata.thumbnailKey\<close>, NULL when the object has no such property.
\<close>

definition thumbnailKey_of :: "js_object \<Rightarrow> string option" where
  "thumbnailKey_of md = (case get_prop md ''thumbnailKey'' of Some (JStr k) \<Rightarrow> Some k | _ \<Rightarrow> None)"

definition updateMediaMetadata :: "string option \<Rightarrow> js_object \<Rightarrow> string \<Rightarrow> unit io" where
  "updateMediaMetadata mediaId md st =
     bind service_call (\<lambda>_ w.
       (Inr (), w\<lparr>media :=
          map (\<lambda>r. if Some (row_id r) = mediaId
                    then r\<lparr>status := st, metadata := Some md,
                           thumbnail_key := thumbnailKey_of md,
                           processed_at := Some (now w), updated_at := now w\<rparr>
                    else r) (media w)\<rparr>))"

text \<open>
  What a status-only update may not touch: a row with the three columns it writes
  blanked.
\<close>

definition untouched_by_status :: "media_row \<Rightarrow> media_row" where
  "untouched_by_status r = r\<lparr>status := [], error_message := None, updated_at := 0\<rparr>"

section \<open>The object store\<close>

text \<open>
  \<open>s3.getObject({Bucket, Key}).promise()\<close> for a key that is a string: the service rejects
  a key that holds no object. (The client rejects a missing \<open>Key\<close> before any request
  is sent; \<open>processMedia_try\<close> below has that case.)
\<close>

definition s3_getObject :: "string \<Rightarrow> s3_object io" where
  "s3_getObject key =
     bind service_call (\<lambda>_ w.
       case map_of (s3 w) key of
         None \<Rightarrow> (Inl (Error ''NoSuchKey'' ''The specified key does not exist.''), w)
       | Some obj \<Rightarrow> (Inr obj, w))"

definition s3_putObject :: "string \<Rightarrow> blob \<Rightarrow> string \<Rightarrow> unit io" where
  "s3_putObject key body contentType =
     bind service_call (\<lambda>_ w.
       (Inr (), w\<lparr>s3 := AList.update key
          \<lparr>Body = body, ContentLength = byteLength body, ContentType = contentType\<rparr> (s3 w)\<rparr>))"

section \<open>The image library\<close>

text \<open>
  \<open>Buffer.from(text, 'base64')\<close> on well-formed base64 text: four characters give
  three bytes, \<open>=\<close> pads the last group.
\<close>

definition b64_index :: "char \<Rightarrow> nat" where
  "b64_index c =
     (let n = (of_char c :: nat) in
      if 65 \<le> n \<and> n \<le> 90 then n - 65
      else if 97 \<le> n \<and> n \<le> 122 then n - 71
      else if 48 \<le> n \<and> n \<le> 57 then n + 4
      else if c = CHR ''+'' then 62
      else if c = CHR ''/'' then 63
      else 0)"

fun b64_decode :: "string \<Rightarrow> nat list" where
  "b64_decode (a # b # c # d # rest) =
     (let n = ((b64_index a * 64 + b64_index b) * 64 + b64_index c) * 64 + b64_index d;
          bytes = [n div 65536, (n div 256) mod 256, n mod 256]
      in (if c = CHR ''='' then take 1 bytes
          else if d = CHR ''='' then take 2 bytes
          else bytes) @ b64_decode rest)"
| "b64_decode _ = []"

text \<open>
  What the decoder reads from a buffer: width, height and format. An abstract image
  carries them; of literal bytes the model recognises a PNG by its signature and its
  IHDR chunk (big-endian width and height at offsets 16 and 20), and rejects the rest
  as the library rejects an unknown format.
\<close>

record image_metadata =
  width :: nat
  height :: nat
  format :: string

definition be32 :: "nat list \<Rightarrow> nat" where
  "be32 bs = foldl (\<lambda>acc b. acc * 256 + b) 0 (take 4 bs)"

definition png_header :: "nat list \<Rightarrow> (nat \<times> nat) option" where
  "png_header bs =
     (if take 8 bs = [137, 80, 78, 71, 13, 10, 26, 10] \<and> take 4 (drop 12 bs) = [73, 72, 68, 82]
         \<and> 24 \<le> length bs
      then Some (be32 (drop 16 bs), be32 (drop 20 bs))
      else None)"

fun sharp_metadata :: "blob \<Rightarrow> image_metadata result" where
  "sharp_metadata (Picture w h f) = Inr \<lparr>width = w, height = h, format = f\<rparr>"
| "sharp_metadata (Bytes bs) =
     (case png_header bs of
        Some (w, h) \<Rightarrow> Inr \<lparr>width = w, height = h, format = ''png''\<rparr>
      | None \<Rightarrow> Inl (Error ''Error'' ''Input buffer contains unsupported image format''))"

text \<open>
  The image library is a dependency of the worker, not code of the repository; its
  \<open>resize(tw, th, {fit})\<close> is taken as its documentation describes it, with every
  option that the worker does not pass at its default. In particular
  \<open>withoutEnlargement\<close> is left \<open>false\<close>, so the scale factor is applied to small
  sources as well as to large ones.
  \<^item> \<open>cover\<close>: scale to fill the box and crop the overflow: the output is the box.
  \<^item> \<open>inside\<close>: scale by the larger of the two shrink factors \<open>w / tw\<close> and \<open>h / th\<close>,
    so that the image fits the box with its aspect ratio kept; the scaled side is
    rounded to the nearest pixel and is never less than one pixel.
\<close>

datatype fit = cover | inside

definition round_div :: "nat \<Rightarrow> nat \<Rightarrow> nat" where
  "round_div a b = (2 * a + b) div (2 * b)"

fun resize_dims :: "nat \<Rightarrow> nat \<Rightarrow> fit \<Rightarrow> nat \<times> nat \<Rightarrow> nat \<times> nat" where
  "resize_dims tw th cover (w, h) = (tw, th)"
| "resize_dims tw th inside (w, h) =
     (if h * tw \<le> w * th
      then (tw, max 1 (round_div (h * tw) w))
      else (max 1 (round_div (w * th) h), th))"

text \<open>
  \<open>image.resize(tw, th, {fit}).jpeg({quality}).toBuffer()\<close>: decode, resize, encode
  as JPEG. The quality changes the pixels, which are not modelled.
\<close>

definition sharp_resize_jpeg :: "nat \<Rightarrow> nat \<Rightarrow> fit \<Rightarrow> nat \<Rightarrow> blob \<Rightarrow> blob result" where
  "sharp_resize_jpeg tw th f quality buf =
     (case sharp_metadata buf of
        Inl e \<Rightarrow> Inl e
      | Inr im \<Rightarrow>
          (case resize_dims tw th f (width im, height im) of
             (w', h') \<Rightarrow> Inr (Picture w' h' ''jpeg'')))"

section \<open>Derivative keys\<close>

text \<open>
  \<open>s3Key.replace(/\.[^.]+$/, replacement)\<close>. \<open>ext_match s\<close> is the pattern matched at the
  start of \<open>s\<close> and reaching its end: a dot, then one or more characters none of which
  is a dot. \<open>replace_ext\<close> tries the positions from the left and replaces the first
  match, which runs to the end of the string; without a match the string is returned
  as it is.
\<close>

fun ext_match :: "string \<Rightarrow> bool" where
  "ext_match [] = False"
| "ext_match (c # cs) = (c = CHR ''.'' \<and> cs \<noteq> [] \<and> CHR ''.'' \<notin> set cs)"

fun replace_ext :: "string \<Rightarrow> string \<Rightarrow> string" where
  "replace_ext [] replacement = []"
| "replace_ext (c # cs) replacement =
     (if ext_match (c # cs) then replacement else c # replace_ext cs replacement)"

section \<open>The transforms\<close>

definition processImage :: "string \<Rightarrow> blob \<Rightarrow> js_object \<Rightarrow> js_object io" where
  "processImage s3Key imageBuffer md =
     bind (lift (sharp_metadata imageBuffer)) (\<lambda>imageMetadata.
     let md = set_prop ''width'' (JNum (width imageMetadata)) md;
         md = set_prop ''height'' (JNum (height imageMetadata)) md;
         md = set_prop ''format'' (JStr (format imageMetadata)) md
     in
     bind (lift (sharp_resize_jpeg 300 300 cover 80 imageBuffer)) (\<lambda>thumbnailBuffer.
     let thumbnailKey = replace_ext s3Key ''_thumb.jpg'' in
     bind (s3_putObject thumbnailKey thumbnailBuffer ''image/jpeg'') (\<lambda>_.
     let md = set_prop ''thumbnailKey'' (JStr thumbnailKey) md in
     bind (lift (sharp_resize_jpeg 800 800 inside 85 imageBuffer)) (\<lambda>mediumBuffer.
     let mediumKey = replace_ext s3Key ''_medium.jpg'' in
     bind (s3_putObject mediumKey mediumBuffer ''image/jpeg'') (\<lambda>_.
     let md = set_prop ''mediumKey'' (JStr mediumKey) md in
     ret md)))))"

definition placeholderThumbnail :: blob where
  "placeholderThumbnail = Bytes (b64_decode
     ''iVBORw0KGgoAAAANSUhEUgAAAAEAAAABCAYAAAAfFcSJAAAADUlEQVR42mNk+M9QDwADhgGAWjR9awAAAABJRU5ErkJggg=='')"

definition processVideo :: "string \<Rightarrow> blob \<Rightarrow> js_object \<Rightarrow> js_object io" where
  "processVideo s3Key videoBuffer md =
     (let md = set_prop ''duration'' (JNum 0) md;
          md = set_prop ''codec'' (JStr ''unknown'') md;
          thumbnailKey = replace_ext s3Key ''_thumb.jpg''
      in
      bind (s3_putObject thumbnailKey placeholderThumbnail ''image/jpeg'') (\<lambda>_.
      let md = set_prop ''thumbnailKey'' (JStr thumbnailKey) md in
      ret md))"

section \<open>The cache\<close>

text \<open>
  The glob patterns of the cache's \<open>KEYS\<close> command: \<open>*\<close> matches any run of
  characters, \<open>?\<close> one character, \<open>[...]\<close> a class of characters (with ranges, a
  leading \<open>^\<close> to negate, a backslash to quote), a backslash quotes the next character.
  \<open>glob_class p c m\<close> reads a class up to its closing bracket and returns whether
  \<open>c\<close> is in it, with the rest of the pattern.
\<close>

fun glob_class :: "string \<Rightarrow> char \<Rightarrow> bool \<Rightarrow> bool \<times> string" where
  "glob_class [] c m = (m, [])"
| "glob_class [x] c m = (if x = CHR '']'' then (m, []) else (m \<or> x = c, []))"
| "glob_class (x # y # p) c m =
     (if x = CHR 0x5C then glob_class p c (m \<or> y = c)
      else if x = CHR '']'' then (m, y # p)
      else (case p of
              e # p' \<Rightarrow>
                if y = CHR ''-''
                then glob_class p' c
                       (m \<or> (min (of_char x) (of_char e) \<le> (of_char c :: nat)
                             \<and> (of_char c :: nat) \<le> max (of_char x) (of_char e)))
                else glob_class (y # p) c (m \<or> x = c)
            | [] \<Rightarrow> glob_class (y # p) c (m \<or> x = c)))"

fun glob :: "string \<Rightarrow> string \<Rightarrow> bool" where
  "glob [] s = (s = [])"
| "glob (x # p) s =
     (if x = CHR ''*'' then glob p s \<or> (case s of [] \<Rightarrow> False | c # s' \<Rightarrow> glob (x # p) s')
      else (case s of
              [] \<Rightarrow> False
            | c # s' \<Rightarrow>
                if x = CHR ''?'' then glob p s'
                else if x = CHR ''[''
                then (case p of
                        n # p' \<Rightarrow>
                          if n = CHR ''^''
                          then (case glob_class p' c False of (m, rest) \<Rightarrow> \<not> m \<and> glob rest s')
                          else (case glob_class p c False of (m, rest) \<Rightarrow> m \<and> glob rest s')
                      | [] \<Rightarrow> False)
                else if x = CHR 0x5C
                then (case p of q # p' \<Rightarrow> q = c \<and> glob p' s' | [] \<Rightarrow> x = c \<and> glob p s')
                else x = c \<and> glob p s'))"

text \<open>An entry is visible until it expires.\<close>

definition live :: "world \<Rightarrow> string \<times> cache_entry \<Rightarrow> bool" where
  "live w ke = (now w < expires_at (snd ke))"

definition cache_keys :: "world \<Rightarrow> string list" where
  "cache_keys w = map fst (filter (live w) (redis w))"

definition redis_get :: "string \<Rightarrow> listing_row list option io" where
  "redis_get key =
     bind service_call (\<lambda>_ w.
       (Inr (case map_of (redis w) key of
               None \<Rightarrow> None
             | Some e \<Rightarrow> if live w (key, e) then Some (payload e) else None), w))"

definition redis_setex :: "string \<Rightarrow> nat \<Rightarrow> listing_row list \<Rightarrow> unit io" where
  "redis_setex key seconds v =
     bind service_call (\<lambda>_ w.
       (Inr (), w\<lparr>redis := AList.update key \<lparr>payload = v, expires_at = now w + seconds\<rparr> (redis w)\<rparr>))"

definition redis_keys :: "string \<Rightarrow> string list io" where
  "redis_keys pattern =
     bind service_call (\<lambda>_ w. (Inr (filter (glob pattern) (cache_keys w)), w))"

definition redis_del :: "string list \<Rightarrow> unit io" where
  "redis_del keys =
     bind service_call (\<lambda>_ w.
       (Inr (), w\<lparr>redis := filter (\<lambda>ke. fst ke \<notin> set keys) (redis w)\<rparr>))"

section \<open>The worker\<close>

text \<open>
  The job descriptor after \<open>JSON.parse\<close>: each of the four fields is a string or is
  missing (\<open>undefined\<close> after the destructuring). A template literal prints a missing
  value as \<open>undefined\<close>.
\<close>

record job_message =
  mediaId :: "string option"
  userId :: "string option"
  s3Key :: "string option"
  fileType :: "string option"

definition template :: "string option \<Rightarrow> string" where
  "template v = (case v of None \<Rightarrow> ''undefined'' | Some s \<Rightarrow> s)"

fun invalidate_loop :: "string list \<Rightarrow> unit io" where
  "invalidate_loop [] = ret ()"
| "invalidate_loop (pattern # cacheKeys) =
     bind (if CHR ''*'' \<in> set pattern
           then bind (redis_keys pattern) (\<lambda>keys. if keys \<noteq> [] then redis_del keys else ret ())
           else redis_del [pattern])
          (\<lambda>_. invalidate_loop cacheKeys)"

definition invalidateUserMediaCache :: "string option \<Rightarrow> unit io" where
  "invalidateUserMediaCache uid =
     invalidate_loop
       [''user:'' @ template uid @ '':media'',
        ''user:'' @ template uid @ '':media:*'']"

text \<open>
  The body of the \<open>try\<close> block of \<open>processMedia\<close>. A missing \<open>s3Key\<close> is rejected by the
  object store's client, a missing \<open>fileType\<close> throws at \<open>fileType.startsWith\<close>.
\<close>

definition processMedia_try :: "job_message \<Rightarrow> unit io" where
  "processMedia_try msg =
     bind (updateMediaStatus (mediaId msg) ''processing'' None) (\<lambda>_.
     case s3Key msg of
       None \<Rightarrow> throw (Error ''MissingRequiredParameter'' ''Missing required key Key in params'')
     | Some key \<Rightarrow>
     bind (s3_getObject key) (\<lambda>originalObject.
     let md = [(''size'', case ContentLength originalObject of Some n \<Rightarrow> JNum n | None \<Rightarrow> JUntracked),
               (''contentType'', JStr (ContentType originalObject))]
     in
     bind (case fileType msg of
             None \<Rightarrow> throw (Error ''TypeError'' ''Cannot read properties of undefined'')
           | Some ft \<Rightarrow>
               if prefix ''image/'' ft then processImage key (Body originalObject) md
               else if prefix ''video/'' ft then processVideo key (Body originalObject) md
               else ret md) (\<lambda>md.
     bind (updateMediaMetadata (mediaId msg) md ''ready'') (\<lambda>_.
     invalidateUserMediaCache (userId msg)))))"

definition processMedia :: "job_message \<Rightarrow> unit io" where
  "processMedia msg =
     try_catch (processMedia_try msg) (\<lambda>error.
       bind (updateMediaStatus (mediaId msg) ''failed'' (Some (message error))) (\<lambda>_.
       throw error))"

text \<open>
  A queue record. \<open>JSON.parse\<close> of its body throws a \<open>SyntaxError\<close> or gives the
  descriptor: the body is kept as what the parser makes of it.
\<close>

datatype sqs_body = Malformed string | Descriptor job_message

record sqs_record =
  messageId :: string
  body :: sqs_body

record event =
  Records :: "sqs_record list"

record results =
  successful :: "string option list"
  failed :: "(string \<times> string) list"

fun JSON_parse :: "sqs_body \<Rightarrow> job_message result" where
  "JSON_parse (Malformed text) = Inl (Error ''SyntaxError'' ''Unexpected token in JSON'')"
| "JSON_parse (Descriptor msg) = Inr msg"

text \<open>
  The \<open>for\<close> loop of \<open>handler\<close>: the \<open>catch\<close> notes the failure and throws the error
  again, which ends the invocation with that error.
\<close>

fun handler_loop :: "sqs_record list \<Rightarrow> results \<Rightarrow> results io" where
  "handler_loop [] res = ret res"
| "handler_loop (record # records) res =
     bind (try_catch
             (bind (lift (JSON_parse (body record))) (\<lambda>msg.
              bind (processMedia msg) (\<lambda>_.
              ret (res\<lparr>successful := successful res @ [mediaId msg]\<rparr>))))
             (\<lambda>error. throw error))
          (\<lambda>res. handler_loop records res)"

definition handler :: "event \<Rightarrow> results io" where
  "handler ev = handler_loop (Records ev) \<lparr>successful = [], failed = []\<rparr>"

section \<open>The listing endpoint\<close>

text \<open>
  \<^verbatim>\<open>SELECT id, file_name, file_type, status, thumbnail_key, metadata, created_at,
  processed_at FROM media WHERE user_id = $1 AND status = 'ready'
  ORDER BY created_at DESC LIMIT 50\<close>.
  The database fixes no order among rows created at the same time; the function takes
  one such order.
\<close>

definition select_columns :: "media_row \<Rightarrow> listing_row" where
  "select_columns r =
     \<lparr>lr_id = row_id r, lr_file_name = file_name r, lr_file_type = file_type r,
      lr_status = status r, lr_thumbnail_key = thumbnail_key r, lr_metadata = metadata r,
      lr_created_at = created_at r, lr_processed_at = processed_at r\<rparr>"

definition select_ready_media :: "string \<Rightarrow> media_row list \<Rightarrow> listing_row list" where
  "select_ready_media uid rows =
     take 50 (map select_columns
       (rev (sort_key created_at (filter (\<lambda>r. user_id r = uid \<and> status r = ''ready'') rows))))"

definition pool_query_listing :: "string \<Rightarrow> listing_row list io" where
  "pool_query_listing uid = bind service_call (\<lambda>_ w. (Inr (select_ready_media uid (media w)), w))"

datatype response = Json "listing_row list" | Status500 string

text \<open>
  \<open>GET /api/media\<close> for the authenticated user: the cached listing when the cache has
  one, otherwise the query, whose rows are cached for 300 seconds. Any exception
  becomes the 500 response. The cache stores the rows as JSON text, which is never the
  empty string, so \<open>if (cached)\<close> tests that the entry exists; the payload is kept as
  the rows that the text encodes.
\<close>

definition get_api_media :: "string \<Rightarrow> world \<Rightarrow> response \<times> world" where
  "get_api_media uid w =
     (let cacheKey = ''user:'' @ uid @ '':media'' in
      case bind (redis_get cacheKey) (\<lambda>cached.
             case cached of
               Some rows \<Rightarrow> ret rows
             | None \<Rightarrow>
                 bind (pool_query_listing uid) (\<lambda>rows.
                 bind (redis_setex cacheKey 300 rows) (\<lambda>_.
                 ret rows))) w of
        (Inr rows, w') \<Rightarrow> (Json rows, w')
      | (Inl e, w') \<Rightarrow> (Status500 ''Failed to retrieve media'', w'))"

text \<open>
  What the listing promises of a payload: at most 50 rows, each \<open>ready\<close>, newest first.
\<close>

definition listing_ok :: "listing_row list \<Rightarrow> bool" where
  "listing_ok rows \<longleftrightarrow>
     length rows \<le> 50 \<and> list_all (\<lambda>r. lr_status r = ''ready'') rows
     \<and> sorted_wrt (\<lambda>a b. lr_created_at b \<le> lr_created_at a) rows"

text \<open>
  The states the system reaches from an empty cache: by listing requests, by worker
  invocations, and by anything else that adds nothing to the cache (other requests,
  uploads, the clock, entries expiring or being evicted).
\<close>

inductive reachable :: "world \<Rightarrow> bool" where
  start: "redis w = [] \<Longrightarrow> reachable w"
| listing: "reachable w \<Longrightarrow> reachable (snd (get_api_media uid w))"
| worker: "reachable w \<Longrightarrow> reachable (snd (handler ev w))"
| other: "reachable w \<Longrightarrow> set (redis w') \<subseteq> set (redis w) \<Longrightarrow> reachable w'"

section \<open>Notions used in the statements\<close>

text \<open>
  \<open>steps R f\<close>: whatever \<open>f\<close> returns or throws, the world it leaves is related by
  \<open>R\<close> to the world it started in.
\<close>

definition steps :: "(world \<Rightarrow> world \<Rightarrow> bool) \<Rightarrow> 'a io \<Rightarrow> bool" where
  "steps R f \<longleftrightarrow> (\<forall>w. R w (snd (f w)))"

definition same_rows :: "world \<Rightarrow> world \<Rightarrow> bool" where
  "same_rows w w' \<longleftrightarrow> media w' = media w \<and> now w' = now w"

definition same_row_ids :: "world \<Rightarrow> world \<Rightarrow> bool" where
  "same_row_ids w w' \<longleftrightarrow> map row_id (media w') = map row_id (media w) \<and> now w' = now w"

definition cache_shrinks :: "world \<Rightarrow> world \<Rightarrow> bool" where
  "cache_shrinks w w' \<longleftrightarrow> set (redis w') \<subseteq> set (redis w)"

definition same_cache :: "world \<Rightarrow> world \<Rightarrow> bool" where
  "same_cache w w' \<longleftrightarrow> redis w' = redis w \<and> now w' = now w"

text \<open>
  The invariant of the cache: every stored payload is a listing as the endpoint
  promises it.
\<close>

definition cache_inv :: "world \<Rightarrow> bool" where
  "cache_inv w \<longleftrightarrow> list_all (\<lambda>ke. listing_ok (payload (snd ke))) (redis w)"




text \<open>
  What the cache answers to \<open>GET user:uid:media\<close>: the payload of the entry under the
  listing key when there is one that has not expired.
\<close>

definition cached_listing :: "string \<Rightarrow> world \<Rightarrow> listing_row list option" where
  "cached_listing uid w =
     (case map_of (redis w) (''user:'' @ uid @ '':media'') of
        None \<Rightarrow> None
      | Some e \<Rightarrow> if live w (''user:'' @ uid @ '':media'', e) then Some (payload e) else None)"

text \<open>The extension pattern matches somewhere in the key.\<close>

fun has_extension :: "string \<Rightarrow> bool" where
  "has_extension [] = False"
| "has_extension (c # cs) = (ext_match (c # cs) \<or> has_extension cs)"

text \<open>The part of a key after its last slash.\<close>

definition final_segment :: "string \<Rightarrow> string" where
  "final_segment key = rev (takeWhile (\<lambda>c. c \<noteq> CHR ''/'') (rev key))"

text \<open>A user identifier as the database issues it: a decimal numeral.\<close>

definition is_numeral :: "string \<Rightarrow> bool" where
  "is_numeral s \<longleftrightarrow> s \<noteq> [] \<and> list_all (\<lambda>c. c \<in> set ''0123456789'') s"

section \<open>A scenario\<close>

text \<open>
  Media 42 of user 7, uploaded as a 1000 by 500 JPEG and still pending, with its job
  descriptor.
\<close>

definition demo_row :: media_row where
  "demo_row =
     \<lparr>row_id = ''42'', user_id = ''7'', s3_key = ''uploads/7/1700000000-cat.jpg'',
      file_name = ''cat.jpg'', file_type = ''image/jpeg'', status = ''pending'',
      metadata = None, thumbnail_key = None, error_message = None,
      created_at = 10, updated_at = 10, processed_at = None\<rparr>"

definition demo_object :: s3_object where
  "demo_object =
     \<lparr>Body = Picture 1000 500 ''jpeg'', ContentLength = Some 12345, ContentType = ''image/jpeg''\<rparr>"

definition demo_world :: world where
  "demo_world =
     \<lparr>media = [demo_row], s3 = [(''uploads/7/1700000000-cat.jpg'', demo_object)],
      redis = [], now = 20, faults = []\<rparr>"

definition demo_job :: job_message where
  "demo_job =
     \<lparr>mediaId = Some ''42'', userId = Some ''7'',
      s3Key = Some ''uploads/7/1700000000-cat.jpg'', fileType = Some ''image/jpeg''\<rparr>"

text \<open>
  The same row after an earlier run that completed: a redelivered job finds these
  columns filled.
\<close>

definition retried_row :: media_row where
  "retried_row =
     demo_row\<lparr>status := ''ready'', metadata := Some [(''size'', JNum 12345)],
       thumbnail_key := Some ''uploads/7/1700000000-cat_thumb.jpg'', processed_at := Some 15\<rparr>"

text \<open>
  The same bucket with the upload stored under a key that has no extension.
\<close>

definition bare_world :: world where
  "bare_world = demo_world\<lparr>s3 := [(''uploads/7/1700000000-cat'', demo_object)]\<rparr>"

text \<open>
  Variants of the job: one for a file that is neither an image nor a video, one
  whose object is not in the bucket; and the queue record of the job.
\<close>

definition pdf_job :: job_message where
  "pdf_job = demo_job\<lparr>fileType := Some ''application/pdf''\<rparr>"

definition gone_job :: job_message where
  "gone_job = demo_job\<lparr>s3Key := Some ''uploads/7/gone.jpg''\<rparr>"

definition demo_record :: sqs_record where
  "demo_record = \<lparr>messageId = ''m-1'', body = Descriptor demo_job\<rparr>"

text \<open>
  A table with three media of user 7: one processed earlier, one that failed, and the
  pending one.
\<close>

definition older_row :: media_row where
  "older_row = demo_row\<lparr>row_id := ''41'', status := ''ready'', created_at := 5\<rparr>"

definition failed_row :: media_row where
  "failed_row = demo_row\<lparr>row_id := ''40'', status := ''failed'', created_at := 30\<rparr>"

definition busy_world :: world where
  "busy_world = demo_world\<lparr>media := [older_row, failed_row, demo_row]\<rparr>"

text \<open>
  The scenario with a cache that holds, for user 7, a listing taken before the media
  was processed (it is empty), under the listing key and under a key with the listing
  key as prefix, and an entry of user 77.
\<close>

definition stale_entry :: cache_entry where
  "stale_entry = \<lparr>payload = [], expires_at = 200\<rparr>"

definition cached_world :: world where
  "cached_world = demo_world\<lparr>redis :=
     [(''user:7:media'', stale_entry), (''user:7:media:page2'', stale_entry),
      (''user:77:media'', stale_entry)]\<rparr>"


text \<open>
  The scenario after the worker has processed media 42 and user 7 has listed the
  media; and the same after the job has been delivered again and the fetch of the
  object has been rejected.
\<close>

definition listed_world :: world where
  "listed_world = snd (get_api_media ''7'' (snd (handler \<lparr>Records = [demo_record]\<rparr> demo_world)))"

definition stale_world :: world where
  "stale_world =
     snd (handler \<lparr>Records = [demo_record]\<rparr>
            (listed_world\<lparr>faults := [None, Some (Error ''TimeoutError'' ''Connection timed out'')]\<rparr>))"

section \<open>Effects: general lemmas\<close>

lemma service_call_snd: "snd (service_call w) = w\<lparr>faults := tl (faults w)\<rparr>"
  by (cases "faults w") (auto simp add: service_call_def split: list.splits option.splits)

lemma service_call_Inr:
  "service_call w = (Inr u, w') \<Longrightarrow> w' = w\<lparr>faults := tl (faults w)\<rparr>"
  using service_call_snd[of w] by simp

lemma bind_Inr:
  "bind f g w = (Inr y, w') \<longleftrightarrow> (\<exists>x w1. f w = (Inr x, w1) \<and> g x w1 = (Inr y, w'))"
  by (auto simp add: bind_def split: prod.splits sum.splits)

lemma bind_Inl:
  "bind f g w = (Inl e, w') \<longleftrightarrow>
     f w = (Inl e, w') \<or> (\<exists>x w1. f w = (Inr x, w1) \<and> g x w1 = (Inl e, w'))"
  by (auto simp add: bind_def split: prod.splits sum.splits)

lemma steps_bind:
  assumes "transp R" "steps R f" "\<And>x. steps R (g x)"
  shows "steps R (bind f g)"
  unfolding steps_def
proof
  fix w
  obtain r w1 where fw: "f w = (r, w1)" by (cases "f w")
  have R1: "R w w1" using assms(2) fw by (auto simp: steps_def dest: spec[of _ w])
  show "R w (snd (bind f g w))"
  proof (cases r)
    case (Inl e)
    then show ?thesis using fw R1 by (simp add: bind_def)
  next
    case (Inr x)
    have "R w1 (snd (g x w1))" using assms(3)[of x] by (simp add: steps_def)
    then show ?thesis using fw Inr R1 assms(1) by (auto simp add: bind_def dest: transpD)
  qed
qed

lemma steps_try_catch:
  assumes "transp R" "steps R f" "\<And>e. steps R (h e)"
  shows "steps R (try_catch f h)"
  unfolding steps_def
proof
  fix w
  obtain r w1 where fw: "f w = (r, w1)" by (cases "f w")
  have R1: "R w w1" using assms(2) fw by (auto simp: steps_def dest: spec[of _ w])
  show "R w (snd (try_catch f h w))"
  proof (cases r)
    case (Inr x)
    then show ?thesis using fw R1 by (simp add: try_catch_def)
  next
    case (Inl e)
    have "R w1 (snd (h e w1))" using assms(3)[of e] by (simp add: steps_def)
    then show ?thesis using fw Inl R1 assms(1) by (auto simp add: try_catch_def dest: transpD)
  qed
qed

lemma steps_pure:
  assumes "reflp R"
  shows "steps R (ret x)" "steps R (throw e)" "steps R (lift r)"
  using assms by (auto simp add: steps_def ret_def throw_def lift_def dest: reflpD)

lemma transp_rels:
  "transp same_rows" "transp same_row_ids" "transp cache_shrinks" "transp same_cache"
  by (auto simp add: transp_def same_rows_def same_row_ids_def cache_shrinks_def same_cache_def)

lemma reflp_rels:
  "reflp same_rows" "reflp same_row_ids" "reflp cache_shrinks" "reflp same_cache"
  by (auto simp add: reflp_def same_rows_def same_row_ids_def cache_shrinks_def same_cache_def)

lemma stepsD: "steps R f \<Longrightarrow> f w = (r, w') \<Longrightarrow> R w w'"
  by (auto simp add: steps_def dest: spec[of _ w])

lemma steps_service_call:
  "steps same_rows service_call" "steps same_row_ids service_call"
  "steps cache_shrinks service_call" "steps same_cache service_call"
  by (auto simp add: steps_def same_rows_def same_row_ids_def cache_shrinks_def same_cache_def
      service_call_snd)

lemma steps_after_call:
  assumes "transp R" "steps R service_call" "\<And>x w. R w (snd (k x w))"
  shows "steps R (bind service_call k)"
  using assms by (intro steps_bind) (auto simp add: steps_def)

lemma updateMediaStatus_snd:
  "snd (updateMediaStatus mid st em w) = w\<lparr>faults := tl (faults w)\<rparr>
   \<or> snd (updateMediaStatus mid st em w) =
       w\<lparr>faults := tl (faults w),
         media := map (\<lambda>r. if Some (row_id r) = mid
                            then r\<lparr>status := st, error_message := em, updated_at := now w\<rparr>
                            else r) (media w)\<rparr>"
  by (cases "faults w")
     (auto simp add: updateMediaStatus_def bind_def service_call_def split: option.splits)

lemma updateMediaStatus_Inr:
  "updateMediaStatus mid st em w = (Inr u, w') \<Longrightarrow>
     w' = w\<lparr>faults := tl (faults w),
            media := map (\<lambda>r. if Some (row_id r) = mid
                            then r\<lparr>status := st, error_message := em, updated_at := now w\<rparr>
                            else r) (media w)\<rparr>"
  by (cases "faults w")
     (auto simp add: updateMediaStatus_def bind_def service_call_def split: option.splits)

lemma updateMediaStatus_Inl:
  "updateMediaStatus mid st em w = (Inl e, w') \<Longrightarrow> w' = w\<lparr>faults := tl (faults w)\<rparr>"
  by (cases "faults w")
     (auto simp add: updateMediaStatus_def bind_def service_call_def split: option.splits)

lemma updateMediaMetadata_Inr:
  "updateMediaMetadata mid md st w = (Inr u, w') \<Longrightarrow>
     w' = w\<lparr>faults := tl (faults w),
            media := map (\<lambda>r. if Some (row_id r) = mid
                    then r\<lparr>status := st, metadata := Some md,
                           thumbnail_key := thumbnailKey_of md,
                           processed_at := Some (now w), updated_at := now w\<rparr>
                    else r) (media w)\<rparr>"
  by (cases "faults w")
     (auto simp add: updateMediaMetadata_def bind_def service_call_def split: option.splits)

section \<open>The status-only update\<close>

text \<open>
  Claim C6. The status-only update \<open>updateMediaStatus\<close> writes \<open>status\<close>,
  \<open>error_message\<close> and \<open>updated_at\<close> and nothing else: whether the request is served or
  rejected, every row keeps all its other columns (in particular \<open>metadata\<close>,
  \<open>thumbnail_key\<close> and \<open>processed_at\<close>), no row is added or removed, and the bucket and
  the cache are as before.
\<close>

theorem updateMediaStatus_frame:
  "map untouched_by_status (media (snd (updateMediaStatus mid st em w)))
     = map untouched_by_status (media w)
   \<and> map metadata (media (snd (updateMediaStatus mid st em w))) = map metadata (media w)
   \<and> map thumbnail_key (media (snd (updateMediaStatus mid st em w))) = map thumbnail_key (media w)
   \<and> map processed_at (media (snd (updateMediaStatus mid st em w))) = map processed_at (media w)
   \<and> s3 (snd (updateMediaStatus mid st em w)) = s3 w
   \<and> redis (snd (updateMediaStatus mid st em w)) = redis w"
  using updateMediaStatus_snd[of mid st em w]
  by (auto simp add: untouched_by_status_def)

text \<open>
  On a row that an earlier run completed, the update to \<open>processing\<close> keeps the metadata,
  the thumbnail key and the processing time.
\<close>

theorem updateMediaStatus_frame_witness:
  "map (\<lambda>r. (metadata r, thumbnail_key r, processed_at r))
     (media (snd (updateMediaStatus (Some ''42'') ''processing'' None
        (demo_world\<lparr>media := [retried_row]\<rparr>))))
   = [(Some [(''size'', JNum 12345)], Some ''uploads/7/1700000000-cat_thumb.jpg'', Some 15)]
   \<and> map status (media (snd (updateMediaStatus (Some ''42'') ''processing'' None
        (demo_world\<lparr>media := [retried_row]\<rparr>)))) = [''processing'']"
proof -
  let ?w = "demo_world\<lparr>media := [retried_row]\<rparr>"
  let ?w' = "snd (updateMediaStatus (Some ''42'') ''processing'' None ?w)"
  have st: "map status (media ?w') = [''processing'']"
    by code_simp
  have "map untouched_by_status (media ?w') = map untouched_by_status (media ?w)"
    using updateMediaStatus_frame[of "Some ''42''" "''processing''" None ?w] by blast
  then have "map (\<lambda>r. (metadata r, thumbnail_key r, processed_at r)) (map untouched_by_status (media ?w'))
      = map (\<lambda>r. (metadata r, thumbnail_key r, processed_at r)) (map untouched_by_status (media ?w))"
    by simp
  then have "map (\<lambda>r. (metadata r, thumbnail_key r, processed_at r)) (media ?w')
      = map (\<lambda>r. (metadata r, thumbnail_key r, processed_at r)) (media ?w)"
    by (simp add: untouched_by_status_def comp_def)
  then show ?thesis using st
    by (simp add: demo_world_def retried_row_def demo_row_def)
qed

section \<open>Derivative keys, the object store and the transforms\<close>

lemma replace_ext_no_extension: "\<not> has_extension key \<Longrightarrow> replace_ext key r = key"
  by (induction key) auto

lemma no_dot_no_extension: "CHR ''.'' \<notin> set key \<Longrightarrow> \<not> has_extension key"
  by (induction key) auto

lemma replace_ext_inj: "has_extension key \<Longrightarrow> replace_ext key a = replace_ext key b \<Longrightarrow> a = b"
  by (induction key) (auto split: if_splits)

lemma s3_putObject_Inr:
  "s3_putObject key buf ct w = (Inr u, w') \<Longrightarrow>
     w' = w\<lparr>faults := tl (faults w),
            s3 := AList.update key \<lparr>Body = buf, ContentLength = byteLength buf, ContentType = ct\<rparr> (s3 w)\<rparr>"
  by (cases "faults w")
     (auto simp add: s3_putObject_def bind_def service_call_def split: option.splits)

lemma get_set_prop: "get_prop (set_prop k v obj) k' = (if k' = k then Some v else get_prop obj k')"
  by (simp add: get_prop_def set_prop_def update_conv')

lemma field_names_set_prop: "set (field_names (set_prop k v obj)) = insert k (set (field_names obj))"
  by (simp add: field_names_def set_prop_def dom_update)

lemma map_of_s3_update:
  "map_of (AList.update k v al) k' = (if k' = k then Some v else map_of al k')"
  by (simp add: update_conv')

lemma thumbnailKey_of_image:
  "thumbnailKey_of (set_prop ''mediumKey'' v (set_prop ''thumbnailKey'' (JStr k) obj)) = Some k"
  by (simp add: thumbnailKey_of_def get_set_prop)

lemma thumbnailKey_of_video:
  "thumbnailKey_of (set_prop ''thumbnailKey'' (JStr k) obj) = Some k"
  by (simp add: thumbnailKey_of_def get_set_prop)

lemma processImage_success:
  assumes run: "processImage key buf md W = (Inr md', W')"
  shows "\<exists>w h f. sharp_metadata buf = Inr \<lparr>width = w, height = h, format = f\<rparr>
     \<and> md' = set_prop ''mediumKey'' (JStr (replace_ext key ''_medium.jpg''))
               (set_prop ''thumbnailKey'' (JStr (replace_ext key ''_thumb.jpg''))
               (set_prop ''format'' (JStr f) (set_prop ''height'' (JNum h) (set_prop ''width'' (JNum w) md))))
     \<and> s3 W' = AList.update (replace_ext key ''_medium.jpg'')
            \<lparr>Body = Picture (fst (resize_dims 800 800 inside (w, h))) (snd (resize_dims 800 800 inside (w, h))) ''jpeg'',
             ContentLength = None, ContentType = ''image/jpeg''\<rparr>
          (AList.update (replace_ext key ''_thumb.jpg'')
            \<lparr>Body = Picture 300 300 ''jpeg'', ContentLength = None, ContentType = ''image/jpeg''\<rparr> (s3 W))"
proof (cases "sharp_metadata buf")
  case (Inl e)
  then show ?thesis using run by (simp add: processImage_def bind_def lift_def)
next
  case (Inr im)
  obtain w h f where im: "im = \<lparr>width = w, height = h, format = f\<rparr>" by (cases im) auto
  obtain mw mh where dims: "resize_dims 800 800 inside (w, h) = (mw, mh)"
    by (cases "resize_dims 800 800 inside (w, h)")
  have thumb: "sharp_resize_jpeg 300 300 cover 80 buf = Inr (Picture 300 300 ''jpeg'')"
    by (simp add: sharp_resize_jpeg_def Inr im)
  have medium: "sharp_resize_jpeg 800 800 inside 85 buf = Inr (Picture mw mh ''jpeg'')"
    using dims by (simp add: sharp_resize_jpeg_def Inr im del: resize_dims.simps)
  from run obtain W1 where
      put1: "s3_putObject (replace_ext key ''_thumb.jpg'') (Picture 300 300 ''jpeg'') ''image/jpeg'' W = (Inr (), W1)"
    and put2: "s3_putObject (replace_ext key ''_medium.jpg'') (Picture mw mh ''jpeg'') ''image/jpeg'' W1 = (Inr (), W')"
    and md': "md' = set_prop ''mediumKey'' (JStr (replace_ext key ''_medium.jpg''))
               (set_prop ''thumbnailKey'' (JStr (replace_ext key ''_thumb.jpg''))
               (set_prop ''format'' (JStr f) (set_prop ''height'' (JNum h) (set_prop ''width'' (JNum w) md))))"
    unfolding processImage_def Let_def
    by (simp add: bind_Inr lift_def Inr im thumb medium ret_def) blast
  have "s3 W' = AList.update (replace_ext key ''_medium.jpg'')
            \<lparr>Body = Picture mw mh ''jpeg'', ContentLength = None, ContentType = ''image/jpeg''\<rparr>
          (AList.update (replace_ext key ''_thumb.jpg'')
            \<lparr>Body = Picture 300 300 ''jpeg'', ContentLength = None, ContentType = ''image/jpeg''\<rparr> (s3 W))"
    using s3_putObject_Inr[OF put1] s3_putObject_Inr[OF put2] by simp
  then show ?thesis using md' dims Inr im by simp
qed

lemma processVideo_Inr:
  assumes "processVideo key buf md W = (Inr md', W')"
  shows "md' = set_prop ''thumbnailKey'' (JStr (replace_ext key ''_thumb.jpg''))
               (set_prop ''codec'' (JStr ''unknown'') (set_prop ''duration'' (JNum 0) md))"
    and "s3 W' = AList.update (replace_ext key ''_thumb.jpg'')
            \<lparr>Body = placeholderThumbnail, ContentLength = byteLength placeholderThumbnail,
             ContentType = ''image/jpeg''\<rparr> (s3 W)"
  using assms
  by (auto simp add: processVideo_def bind_Inr ret_def Let_def dest!: s3_putObject_Inr)

lemma placeholder_is_png:
  "sharp_metadata placeholderThumbnail = Inr \<lparr>width = 1, height = 1, format = ''png''\<rparr>"
  "byteLength placeholderThumbnail = Some 70"
  by code_simp+

section \<open>Image derivatives\<close>

lemma round_div_lower: "0 < b \<Longrightarrow> 2 * b * round_div a b \<le> 2 * a + b"
  by (simp add: round_div_def)

lemma round_div_upper: "0 < b \<Longrightarrow> 2 * a + b < 2 * b * (round_div a b + 1)"
proof -
  assume "0 < b"
  then have "0 < 2 * b" by simp
  from dividend_less_times_div[OF this, of "2 * a + b"] show ?thesis
    unfolding round_div_def by (simp only: distrib_left mult_1_right add.commute)
qed

lemma round_div_le: "0 < b \<Longrightarrow> a \<le> b * k \<Longrightarrow> round_div a b \<le> k"
proof -
  assume b: "0 < b" and ak: "a \<le> b * k"
  have "2 * a + b < 2 * b * (k + 1)" using b ak by (simp add: algebra_simps)
  then have "(2 * a + b) div (2 * b) < k + 1"
    using b by (simp add: less_mult_imp_div_less mult.commute)
  then show ?thesis by (simp add: round_div_def)
qed

lemma round_div_close:
  assumes "0 < b" "0 < a"
  shows "\<bar>int (max 1 (round_div a b)) * int b - int a\<bar> < int b"
proof (cases "round_div a b = 0")
  case True
  have "2 * a + b < 2 * b" using round_div_upper[OF assms(1), of a] True by simp
  then show ?thesis using True assms by (simp add: max_def)
next
  case False
  define q where "q = round_div a b"
  have q: "max 1 q = q" using False by (simp add: q_def max_def)
  have lo: "2 * b * q \<le> 2 * a + b" using round_div_lower[OF assms(1), of a] by (simp add: q_def)
  have hi: "2 * a + b < 2 * b * (q + 1)" using round_div_upper[OF assms(1), of a] by (simp add: q_def)
  have "2 * (int q * int b) \<le> 2 * int a + int b"
  proof -
    have "int (2 * b * q) \<le> int (2 * a + b)" using lo by (simp only: of_nat_le_iff)
    then show ?thesis by (simp add: algebra_simps)
  qed
  moreover have "2 * int a + int b < 2 * (int q * int b) + 2 * int b"
  proof -
    have "int (2 * a + b) < int (2 * b * (q + 1))" using hi by (simp only: of_nat_less_iff)
    then show ?thesis by (simp add: algebra_simps)
  qed
  ultimately show ?thesis using assms unfolding q_def[symmetric] q by linarith
qed

lemma resize_inside_bounds:
  assumes "0 < w" "0 < h" "resize_dims 800 800 inside (w, h) = (mw, mh)"
  shows "0 < mw \<and> 0 < mh \<and> mw \<le> 800 \<and> mh \<le> 800 \<and> max mw mh = 800
         \<and> \<bar>int mw * int h - int mh * int w\<bar> < int (max w h)"
proof (cases "h \<le> w")
  case True
  then have mw: "mw = 800" and mh: "mh = max 1 (round_div (h * 800) w)"
    using assms(3) by auto
  have le: "round_div (h * 800) w \<le> 800"
    using True assms(1) by (intro round_div_le) (simp_all add: mult.commute)
  have "\<bar>int mh * int w - int (h * 800)\<bar> < int w"
    unfolding mh using assms by (intro round_div_close) simp_all
  then have "\<bar>int mw * int h - int mh * int w\<bar> < int w"
    unfolding mw by (simp add: abs_minus_commute mult.commute)
  then show ?thesis using mw mh le True by (auto simp add: max_def)
next
  case False
  then have mh: "mh = 800" and mw: "mw = max 1 (round_div (w * 800) h)"
    using assms(3) by auto
  have le: "round_div (w * 800) h \<le> 800"
    using False assms(2) by (intro round_div_le) (simp_all add: mult.commute)
  have "\<bar>int mw * int h - int (w * 800)\<bar> < int h"
    unfolding mw using assms by (intro round_div_close) simp_all
  then have "\<bar>int mw * int h - int mh * int w\<bar> < int h"
    unfolding mh by (simp add: mult.commute)
  then show ?thesis using mw mh le False by (auto simp add: max_def)
qed

text \<open>
  Claim C3, as the code has it. For a decodable image of positive width and height
  stored under a key with an extension, a run of \<open>processImage\<close> that returns leaves
  under the thumbnail key a JPEG of exactly 300 by 300, and under the medium key a JPEG
  that fits in 800 by 800, whose longer side is exactly 800 (the source is scaled up
  as well as down), and whose sides are in the proportion of the source's, the shorter
  one to within a pixel.
\<close>

theorem image_derivative_dimensions:
  assumes run: "processImage key (Picture w h f) md W = (Inr md', W')"
      and valid: "0 < w" "0 < h"
      and ext: "has_extension key"
  shows "map_of (s3 W') (replace_ext key ''_thumb.jpg'')
           = Some \<lparr>Body = Picture 300 300 ''jpeg'', ContentLength = None, ContentType = ''image/jpeg''\<rparr>
         \<and> (\<exists>mw mh. map_of (s3 W') (replace_ext key ''_medium.jpg'')
                = Some \<lparr>Body = Picture mw mh ''jpeg'', ContentLength = None, ContentType = ''image/jpeg''\<rparr>
              \<and> 0 < mw \<and> 0 < mh \<and> mw \<le> 800 \<and> mh \<le> 800 \<and> max mw mh = 800
              \<and> \<bar>int mw * int h - int mh * int w\<bar> < int (max w h))"
proof -
  obtain mw mh where dims: "resize_dims 800 800 inside (w, h) = (mw, mh)"
    by (cases "resize_dims 800 800 inside (w, h)")
  have distinct: "replace_ext key ''_thumb.jpg'' \<noteq> replace_ext key ''_medium.jpg''"
    using replace_ext_inj[OF ext, of "''_thumb.jpg''" "''_medium.jpg''"] by auto
  have store: "s3 W' = AList.update (replace_ext key ''_medium.jpg'')
            \<lparr>Body = Picture mw mh ''jpeg'', ContentLength = None, ContentType = ''image/jpeg''\<rparr>
          (AList.update (replace_ext key ''_thumb.jpg'')
            \<lparr>Body = Picture 300 300 ''jpeg'', ContentLength = None, ContentType = ''image/jpeg''\<rparr> (s3 W))"
    using processImage_success[OF run] dims by auto
  have thumb: "map_of (s3 W') (replace_ext key ''_thumb.jpg'')
           = Some \<lparr>Body = Picture 300 300 ''jpeg'', ContentLength = None, ContentType = ''image/jpeg''\<rparr>"
    using distinct by (simp add: store map_of_s3_update)
  have medium: "map_of (s3 W') (replace_ext key ''_medium.jpg'')
           = Some \<lparr>Body = Picture mw mh ''jpeg'', ContentLength = None, ContentType = ''image/jpeg''\<rparr>"
    by (simp add: store map_of_s3_update)
  show ?thesis using thumb medium resize_inside_bounds[OF valid dims] by blast
qed

theorem image_derivative_dimensions_witness:
  "has_extension ''uploads/7/1700000000-cat.jpg''
   \<and> map_of (s3 (snd (processImage ''uploads/7/1700000000-cat.jpg'' (Picture 1000 500 ''jpeg'') [] demo_world)))
         ''uploads/7/1700000000-cat_thumb.jpg''
       = Some \<lparr>Body = Picture 300 300 ''jpeg'', ContentLength = None, ContentType = ''image/jpeg''\<rparr>
   \<and> map_of (s3 (snd (processImage ''uploads/7/1700000000-cat.jpg'' (Picture 1000 500 ''jpeg'') [] demo_world)))
         ''uploads/7/1700000000-cat_medium.jpg''
       = Some \<lparr>Body = Picture 800 400 ''jpeg'', ContentLength = None, ContentType = ''image/jpeg''\<rparr>"
proof -
  let ?key = "''uploads/7/1700000000-cat.jpg''"
  let ?run = "processImage ?key (Picture 1000 500 ''jpeg'') [] demo_world"
  have "\<not> isl (fst ?run)" by code_simp
  then have run: "?run = (Inr (projr (fst ?run)), snd ?run)" by (simp add: prod_eq_iff)
  have ext: "has_extension ?key" by code_simp
  have thumbKey: "replace_ext ?key ''_thumb.jpg'' = ''uploads/7/1700000000-cat_thumb.jpg''"
    by code_simp
  have medium: "map_of (s3 (snd ?run)) ''uploads/7/1700000000-cat_medium.jpg''
       = Some \<lparr>Body = Picture 800 400 ''jpeg'', ContentLength = None, ContentType = ''image/jpeg''\<rparr>"
    by code_simp
  have "map_of (s3 (snd ?run)) (replace_ext ?key ''_thumb.jpg'')
       = Some \<lparr>Body = Picture 300 300 ''jpeg'', ContentLength = None, ContentType = ''image/jpeg''\<rparr>"
    using image_derivative_dimensions[OF run _ _ ext] by simp
  then show ?thesis using ext medium by (simp only: thumbKey simp_thms)
qed

text \<open>
  Claim C3 as stated fails in its last part: a 100 by 50 source, smaller than 800 in
  both dimensions, gets an 800 by 400 medium derivative, not one of its own size.
\<close>

theorem medium_upscaled_counterexample:
  "map_of (s3 (snd (processImage ''uploads/7/small.png'' (Picture 100 50 ''png'') [] demo_world)))
      ''uploads/7/small_medium.jpg''
   = Some \<lparr>Body = Picture 800 400 ''jpeg'', ContentLength = None, ContentType = ''image/jpeg''\<rparr>"
  by code_simp

section \<open>The video transform\<close>

text \<open>
  Claim C7, as the code has it. A run of \<open>processVideo\<close> that returns has set
  \<open>duration\<close> to 0 and \<open>codec\<close> to \<open>unknown\<close>, has stored the fixed placeholder (70
  bytes that decode as a 1 by 1 PNG) under the thumbnail key, and has added to the
  incoming metadata exactly the fields \<open>duration\<close>, \<open>codec\<close> and \<open>thumbnailKey\<close>. With
  the image transform it shares the \<open>thumbnailKey\<close> field, derived by the same rule from
  the key; the image transform adds \<open>width\<close>, \<open>height\<close>, \<open>format\<close> and \<open>mediumKey\<close>
  instead of \<open>duration\<close> and \<open>codec\<close>.
\<close>

theorem video_metadata_contract:
  assumes run: "processVideo key buf md W = (Inr md', W')"
  shows "get_prop md' ''duration'' = Some (JNum 0)
       \<and> get_prop md' ''codec'' = Some (JStr ''unknown'')
       \<and> get_prop md' ''thumbnailKey'' = Some (JStr (replace_ext key ''_thumb.jpg''))
       \<and> map_of (s3 W') (replace_ext key ''_thumb.jpg'')
           = Some \<lparr>Body = placeholderThumbnail, ContentLength = Some 70, ContentType = ''image/jpeg''\<rparr>
       \<and> sharp_metadata placeholderThumbnail = Inr \<lparr>width = 1, height = 1, format = ''png''\<rparr>
       \<and> set (field_names md') = set (field_names md) \<union> {''duration'', ''codec'', ''thumbnailKey''}
       \<and> (\<forall>buf' W1 mdI WI. processImage key buf' md W1 = (Inr mdI, WI) \<longrightarrow>
             get_prop mdI ''thumbnailKey'' = get_prop md' ''thumbnailKey''
             \<and> set (field_names mdI)
                 = set (field_names md) \<union> {''width'', ''height'', ''format'', ''thumbnailKey'', ''mediumKey''})"
proof -
  note md' = processVideo_Inr(1)[OF run]
  note store = processVideo_Inr(2)[OF run]
  have a: "get_prop md' ''duration'' = Some (JNum 0)"
       "get_prop md' ''codec'' = Some (JStr ''unknown'')"
       "get_prop md' ''thumbnailKey'' = Some (JStr (replace_ext key ''_thumb.jpg''))"
    by (simp_all add: md' get_set_prop)
  have b: "map_of (s3 W') (replace_ext key ''_thumb.jpg'')
           = Some \<lparr>Body = placeholderThumbnail, ContentLength = Some 70, ContentType = ''image/jpeg''\<rparr>"
    by (simp add: store map_of_s3_update placeholder_is_png)
  have c: "set (field_names md') = set (field_names md) \<union> {''duration'', ''codec'', ''thumbnailKey''}"
    by (auto simp add: md' field_names_set_prop)
  have d: "get_prop mdI ''thumbnailKey'' = get_prop md' ''thumbnailKey''
           \<and> set (field_names mdI)
               = set (field_names md) \<union> {''width'', ''height'', ''format'', ''thumbnailKey'', ''mediumKey''}"
    if "processImage key buf' md W1 = (Inr mdI, WI)" for buf' W1 mdI WI
  proof -
    from processImage_success[OF that] obtain w h f where
      mdI: "mdI = set_prop ''mediumKey'' (JStr (replace_ext key ''_medium.jpg''))
               (set_prop ''thumbnailKey'' (JStr (replace_ext key ''_thumb.jpg''))
               (set_prop ''format'' (JStr f) (set_prop ''height'' (JNum h) (set_prop ''width'' (JNum w) md))))"
      by blast
    show ?thesis unfolding mdI by (auto simp add: a get_set_prop field_names_set_prop)
  qed
  show ?thesis using a b c d placeholder_is_png(1) by blast
qed

theorem video_metadata_contract_witness:
  "get_prop (projr (fst (processVideo ''uploads/7/clip.mp4'' (Bytes [0, 0, 0, 24]) [] demo_world))) ''duration''
     = Some (JNum 0)
   \<and> get_prop (projr (fst (processVideo ''uploads/7/clip.mp4'' (Bytes [0, 0, 0, 24]) [] demo_world))) ''codec''
     = Some (JStr ''unknown'')
   \<and> map_of (s3 (snd (processVideo ''uploads/7/clip.mp4'' (Bytes [0, 0, 0, 24]) [] demo_world)))
        ''uploads/7/clip_thumb.jpg''
     = Some \<lparr>Body = placeholderThumbnail, ContentLength = Some 70, ContentType = ''image/jpeg''\<rparr>"
proof -
  let ?run = "processVideo ''uploads/7/clip.mp4'' (Bytes [0, 0, 0, 24]) [] demo_world"
  have "\<not> isl (fst ?run)" by code_simp
  then have run: "?run = (Inr (projr (fst ?run)), snd ?run)" by (simp add: prod_eq_iff)
  have key: "replace_ext ''uploads/7/clip.mp4'' ''_thumb.jpg'' = ''uploads/7/clip_thumb.jpg''"
    by code_simp
  show ?thesis using video_metadata_contract[OF run] by (simp only: key simp_thms)
qed

text \<open>
  Claim C7 as stated fails in its last part: on the same key and incoming metadata the
  two transforms return objects with different field names.
\<close>

theorem video_image_fields_counterexample:
  "(case fst (processVideo ''uploads/7/1700000000-cat.jpg'' (Body demo_object)
               [(''size'', JNum 12345), (''contentType'', JStr ''image/jpeg'')] demo_world) of
      Inr v \<Rightarrow> field_names v | Inl e \<Rightarrow> [])
     = [''size'', ''contentType'', ''duration'', ''codec'', ''thumbnailKey'']
   \<and> (case fst (processImage ''uploads/7/1700000000-cat.jpg'' (Body demo_object)
               [(''size'', JNum 12345), (''contentType'', JStr ''image/jpeg'')] demo_world) of
      Inr i \<Rightarrow> field_names i | Inl e \<Rightarrow> [])
     = [''size'', ''contentType'', ''width'', ''height'', ''format'', ''thumbnailKey'', ''mediumKey'']"
  by code_simp

section \<open>Keys without an extension\<close>

text \<open>
  Claim C9, as the code has it. The pattern is matched against the whole key, so it is
  for a key with no dot at all that the derivation returns the key unchanged: then
  both derivative keys are the original's key, the metadata names it as the thumbnail,
  and a run of either transform that returns leaves a derivative stored under it, in
  place of the upload (for an image the medium derivative, written last).
\<close>

theorem extensionless_key_overwritten:
  assumes nodot: "CHR ''.'' \<notin> set key"
  shows "replace_ext key ''_thumb.jpg'' = key \<and> replace_ext key ''_medium.jpg'' = key
     \<and> (\<forall>buf md W md' W'. processImage key buf md W = (Inr md', W') \<longrightarrow>
           thumbnailKey_of md' = Some key
           \<and> (\<exists>mw mh. map_of (s3 W') key
                 = Some \<lparr>Body = Picture mw mh ''jpeg'', ContentLength = None, ContentType = ''image/jpeg''\<rparr>))
     \<and> (\<forall>buf md W md' W'. processVideo key buf md W = (Inr md', W') \<longrightarrow>
           thumbnailKey_of md' = Some key
           \<and> map_of (s3 W') key
                 = Some \<lparr>Body = placeholderThumbnail, ContentLength = Some 70, ContentType = ''image/jpeg''\<rparr>)"
proof -
  have same: "replace_ext key r = key" for r
    using nodot by (intro replace_ext_no_extension no_dot_no_extension)
  have img: "thumbnailKey_of md' = Some key
           \<and> (\<exists>mw mh. map_of (s3 W') key
                 = Some \<lparr>Body = Picture mw mh ''jpeg'', ContentLength = None, ContentType = ''image/jpeg''\<rparr>)"
    if "processImage key buf md W = (Inr md', W')" for buf md W md' W'
    using processImage_success[OF that]
    by (auto simp add: same thumbnailKey_of_image map_of_s3_update)
  have vid: "thumbnailKey_of md' = Some key
           \<and> map_of (s3 W') key
                 = Some \<lparr>Body = placeholderThumbnail, ContentLength = Some 70, ContentType = ''image/jpeg''\<rparr>"
    if "processVideo key buf md W = (Inr md', W')" for buf md W md' W'
    using processVideo_Inr[OF that]
    by (auto simp add: same thumbnailKey_of_video map_of_s3_update placeholder_is_png)
  show ?thesis using same img vid by blast
qed

theorem extensionless_key_overwritten_witness:
  "CHR ''.'' \<notin> set ''uploads/7/1700000000-cat''
   \<and> map_of (s3 bare_world) ''uploads/7/1700000000-cat'' = Some demo_object
   \<and> replace_ext ''uploads/7/1700000000-cat'' ''_thumb.jpg'' = ''uploads/7/1700000000-cat''
   \<and> map_of (s3 (snd (processImage ''uploads/7/1700000000-cat'' (Body demo_object) [] bare_world)))
         ''uploads/7/1700000000-cat''
       = Some \<lparr>Body = Picture 800 400 ''jpeg'', ContentLength = None, ContentType = ''image/jpeg''\<rparr>"
proof -
  let ?key = "''uploads/7/1700000000-cat''"
  let ?run = "processImage ?key (Body demo_object) [] bare_world"
  have nodot: "CHR ''.'' \<notin> set ?key" by simp
  have before: "map_of (s3 bare_world) ?key = Some demo_object" by code_simp
  have after: "map_of (s3 (snd ?run)) ?key
       = Some \<lparr>Body = Picture 800 400 ''jpeg'', ContentLength = None, ContentType = ''image/jpeg''\<rparr>"
    by code_simp
  have "replace_ext ?key ''_thumb.jpg'' = ?key"
    using extensionless_key_overwritten[OF nodot] by blast
  then show ?thesis using nodot before after by blast
qed

text \<open>
  Claim C9 as stated fails: the final segment of this key has no dot, but a folder
  name has one, and the derivation cuts the key at that dot.
\<close>

theorem dotted_folder_counterexample:
  "CHR ''.'' \<notin> set (final_segment ''uploads/7/17-v1.2/readme'')
   \<and> replace_ext ''uploads/7/17-v1.2/readme'' ''_thumb.jpg'' = ''uploads/7/17-v1_thumb.jpg''
   \<and> replace_ext ''uploads/7/17-v1.2/readme'' ''_medium.jpg'' = ''uploads/7/17-v1_medium.jpg''"
  by code_simp

section \<open>What each operation leaves alone\<close>

lemma steps_updateMediaStatus:
  "steps same_row_ids (updateMediaStatus mid st em)"
  "steps same_cache (updateMediaStatus mid st em)"
  "steps cache_shrinks (updateMediaStatus mid st em)"
  unfolding updateMediaStatus_def
  by (rule steps_after_call; simp add: transp_rels steps_service_call;
      simp add: same_row_ids_def same_cache_def cache_shrinks_def comp_def)+

lemma steps_updateMediaMetadata:
  "steps same_row_ids (updateMediaMetadata mid md st)"
  "steps same_cache (updateMediaMetadata mid md st)"
  "steps cache_shrinks (updateMediaMetadata mid md st)"
  unfolding updateMediaMetadata_def
  by (rule steps_after_call; simp add: transp_rels steps_service_call;
      simp add: same_row_ids_def same_cache_def cache_shrinks_def comp_def)+

lemma steps_s3_getObject:
  "steps same_rows (s3_getObject key)"
  "steps same_row_ids (s3_getObject key)"
  "steps same_cache (s3_getObject key)"
  "steps cache_shrinks (s3_getObject key)"
  unfolding s3_getObject_def
  by (rule steps_after_call; simp add: transp_rels steps_service_call;
      simp add: same_rows_def same_row_ids_def same_cache_def cache_shrinks_def split: option.splits)+

lemma steps_s3_putObject:
  "steps same_rows (s3_putObject key buf ct)"
  "steps same_row_ids (s3_putObject key buf ct)"
  "steps same_cache (s3_putObject key buf ct)"
  "steps cache_shrinks (s3_putObject key buf ct)"
  unfolding s3_putObject_def
  by (rule steps_after_call; simp add: transp_rels steps_service_call;
      simp add: same_rows_def same_row_ids_def same_cache_def cache_shrinks_def)+

lemma steps_redis_del:
  "steps same_rows (redis_del keys)"
  "steps same_row_ids (redis_del keys)"
  "steps cache_shrinks (redis_del keys)"
  unfolding redis_del_def
  by (rule steps_after_call; simp add: transp_rels steps_service_call;
      simp add: same_rows_def same_row_ids_def cache_shrinks_def)+

lemma steps_redis_keys:
  "steps same_rows (redis_keys pattern)"
  "steps same_row_ids (redis_keys pattern)"
  "steps same_cache (redis_keys pattern)"
  "steps cache_shrinks (redis_keys pattern)"
  unfolding redis_keys_def
  by (rule steps_after_call; simp add: transp_rels steps_service_call;
      simp add: same_rows_def same_row_ids_def same_cache_def cache_shrinks_def)+

lemma steps_redis_get:
  "steps same_rows (redis_get key)"
  "steps same_cache (redis_get key)"
  "steps cache_shrinks (redis_get key)"
  unfolding redis_get_def
  by (rule steps_after_call; simp add: transp_rels steps_service_call;
      simp add: same_rows_def same_cache_def cache_shrinks_def)+

lemma same_rows_imp_ids: "steps same_rows f \<Longrightarrow> steps same_row_ids f"
  by (simp add: steps_def same_rows_def same_row_ids_def)

lemma steps_processImage:
  "steps same_rows (processImage key buf md)"
  "steps same_cache (processImage key buf md)"
  "steps cache_shrinks (processImage key buf md)"
  unfolding processImage_def Let_def
  by (intro steps_bind steps_pure steps_s3_putObject transp_rels reflp_rels)+

lemma steps_processVideo:
  "steps same_rows (processVideo key buf md)"
  "steps same_cache (processVideo key buf md)"
  "steps cache_shrinks (processVideo key buf md)"
  unfolding processVideo_def Let_def
  by (intro steps_bind steps_pure steps_s3_putObject transp_rels reflp_rels)+

lemma steps_if: "steps R f \<Longrightarrow> steps R g \<Longrightarrow> steps R (if c then f else g)"
  by simp

lemma steps_option_case:
  "steps R f \<Longrightarrow> (\<And>x. steps R (g x)) \<Longrightarrow> steps R (case v of None \<Rightarrow> f | Some x \<Rightarrow> g x)"
  by (cases v) auto

lemma steps_invalidate_step:
  assumes "transp R" "reflp R" "\<And>ks. steps R (redis_del ks)" "\<And>p. steps R (redis_keys p)"
  shows "steps R (invalidate_loop ps)"
proof (induction ps)
  case Nil
  then show ?case using assms(2) by (simp add: steps_pure)
next
  case (Cons p ps)
  show ?case
    unfolding invalidate_loop.simps
    by (intro steps_bind steps_if steps_pure assms Cons)
qed

lemma steps_invalidateUserMediaCache:
  "steps same_rows (invalidateUserMediaCache uid)"
  "steps same_row_ids (invalidateUserMediaCache uid)"
  "steps cache_shrinks (invalidateUserMediaCache uid)"
  unfolding invalidateUserMediaCache_def
  by (intro steps_invalidate_step transp_rels reflp_rels steps_redis_del steps_redis_keys)+

lemma steps_processMedia_try:
  "steps same_row_ids (processMedia_try msg)"
  "steps cache_shrinks (processMedia_try msg)"
  unfolding processMedia_try_def Let_def
  by (intro steps_bind steps_option_case steps_if steps_pure
        steps_updateMediaStatus steps_updateMediaMetadata steps_s3_getObject
        steps_processImage steps_processVideo steps_invalidateUserMediaCache
        same_rows_imp_ids[OF steps_processImage(1)] same_rows_imp_ids[OF steps_processVideo(1)]
        transp_rels reflp_rels)+

lemma steps_processMedia:
  "steps same_row_ids (processMedia msg)"
  "steps cache_shrinks (processMedia msg)"
  unfolding processMedia_def
  by (intro steps_try_catch steps_bind steps_pure steps_updateMediaStatus
        steps_processMedia_try transp_rels reflp_rels)+

lemma steps_handler_loop:
  "steps cache_shrinks (handler_loop rs res)"
proof (induction rs arbitrary: res)
  case Nil
  then show ?case by (simp add: steps_pure reflp_rels)
next
  case (Cons r rs)
  show ?case
    unfolding handler_loop.simps
    by (intro steps_bind steps_try_catch steps_pure steps_processMedia Cons transp_rels reflp_rels)
qed

section \<open>The stages of a run\<close>

lemma catch_rethrows:
  "bind (updateMediaStatus mid st em) (\<lambda>_. throw e) w \<noteq> (Inr x, w')"
  by (auto simp add: bind_def throw_def split: prod.splits sum.splits)

lemma processMedia_Inr:
  "processMedia msg w = (Inr u, w') \<Longrightarrow> processMedia_try msg w = (Inr u, w')"
  by (auto simp add: processMedia_def try_catch_def catch_rethrows split: prod.splits sum.splits)

lemma processMedia_of_try_Inl:
  "processMedia_try msg w = (Inl e, w1) \<Longrightarrow>
     processMedia msg w = bind (updateMediaStatus (mediaId msg) ''failed'' (Some (message e))) (\<lambda>_. throw e) w1"
  by (simp add: processMedia_def try_catch_def)

lemma processMedia_of_try_Inr:
  "processMedia_try msg w = (Inr u, w1) \<Longrightarrow> processMedia msg w = (Inr u, w1)"
  by (simp add: processMedia_def try_catch_def)

text \<open>The stages of a run of the \<open>try\<close> block that returns.\<close>

lemma processMedia_try_Inr:
  assumes "processMedia_try msg w = (Inr u, w')"
  shows "\<exists>key ft obj md' w1 w2 w3 w4.
           s3Key msg = Some key \<and> fileType msg = Some ft
         \<and> updateMediaStatus (mediaId msg) ''processing'' None w = (Inr (), w1)
         \<and> s3_getObject key w1 = (Inr obj, w2)
         \<and> (if prefix ''image/'' ft
              then processImage key (Body obj)
                     [(''size'', case ContentLength obj of Some n \<Rightarrow> JNum n | None \<Rightarrow> JUntracked),
                      (''contentType'', JStr (ContentType obj))]
              else if prefix ''video/'' ft
              then processVideo key (Body obj)
                     [(''size'', case ContentLength obj of Some n \<Rightarrow> JNum n | None \<Rightarrow> JUntracked),
                      (''contentType'', JStr (ContentType obj))]
              else ret [(''size'', case ContentLength obj of Some n \<Rightarrow> JNum n | None \<Rightarrow> JUntracked),
                        (''contentType'', JStr (ContentType obj))]) w2 = (Inr md', w3)
         \<and> updateMediaMetadata (mediaId msg) md' ''ready'' w3 = (Inr (), w4)
         \<and> invalidateUserMediaCache (userId msg) w4 = (Inr (), w')"
proof -
  from assms obtain w1 where
    s1: "updateMediaStatus (mediaId msg) ''processing'' None w = (Inr (), w1)"
    and rest1: "(case s3Key msg of
       None \<Rightarrow> throw (Error ''MissingRequiredParameter'' ''Missing required key Key in params'')
     | Some key \<Rightarrow>
     bind (s3_getObject key) (\<lambda>originalObject.
     let md = [(''size'', case ContentLength originalObject of Some n \<Rightarrow> JNum n | None \<Rightarrow> JUntracked),
               (''contentType'', JStr (ContentType originalObject))]
     in
     bind (case fileType msg of
             None \<Rightarrow> throw (Error ''TypeError'' ''Cannot read properties of undefined'')
           | Some ft \<Rightarrow>
               if prefix ''image/'' ft then processImage key (Body originalObject) md
               else if prefix ''video/'' ft then processVideo key (Body originalObject) md
               else ret md) (\<lambda>md.
     bind (updateMediaMetadata (mediaId msg) md ''ready'') (\<lambda>_.
     invalidateUserMediaCache (userId msg))))) w1 = (Inr u, w')"
    unfolding processMedia_try_def by (subst (asm) bind_Inr) auto
  from rest1 obtain key where key: "s3Key msg = Some key"
    by (cases "s3Key msg") (auto simp add: throw_def)
  from rest1 obtain obj w2 where
    s2: "s3_getObject key w1 = (Inr obj, w2)"
    and rest2: "bind (case fileType msg of
             None \<Rightarrow> throw (Error ''TypeError'' ''Cannot read properties of undefined'')
           | Some ft \<Rightarrow>
               if prefix ''image/'' ft then processImage key (Body obj)
                    [(''size'', case ContentLength obj of Some n \<Rightarrow> JNum n | None \<Rightarrow> JUntracked),
                     (''contentType'', JStr (ContentType obj))]
               else if prefix ''video/'' ft then processVideo key (Body obj)
                    [(''size'', case ContentLength obj of Some n \<Rightarrow> JNum n | None \<Rightarrow> JUntracked),
                     (''contentType'', JStr (ContentType obj))]
               else ret [(''size'', case ContentLength obj of Some n \<Rightarrow> JNum n | None \<Rightarrow> JUntracked),
                     (''contentType'', JStr (ContentType obj))]) (\<lambda>md.
     bind (updateMediaMetadata (mediaId msg) md ''ready'') (\<lambda>_.
     invalidateUserMediaCache (userId msg))) w2 = (Inr u, w')"
    unfolding key option.case by (subst (asm) bind_Inr) (auto simp add: Let_def)
  from rest2 obtain ft where ft: "fileType msg = Some ft"
    by (cases "fileType msg") (auto simp add: bind_def throw_def)
  from rest2 obtain md' w3 where
    s3: "(if prefix ''image/'' ft then processImage key (Body obj)
                    [(''size'', case ContentLength obj of Some n \<Rightarrow> JNum n | None \<Rightarrow> JUntracked),
                     (''contentType'', JStr (ContentType obj))]
               else if prefix ''video/'' ft then processVideo key (Body obj)
                    [(''size'', case ContentLength obj of Some n \<Rightarrow> JNum n | None \<Rightarrow> JUntracked),
                     (''contentType'', JStr (ContentType obj))]
               else ret [(''size'', case ContentLength obj of Some n \<Rightarrow> JNum n | None \<Rightarrow> JUntracked),
                     (''contentType'', JStr (ContentType obj))]) w2 = (Inr md', w3)"
    and rest3: "bind (updateMediaMetadata (mediaId msg) md' ''ready'') (\<lambda>_.
     invalidateUserMediaCache (userId msg)) w3 = (Inr u, w')"
    unfolding ft option.case by (subst (asm) bind_Inr) auto
  from rest3 obtain w4 where
    s4: "updateMediaMetadata (mediaId msg) md' ''ready'' w3 = (Inr (), w4)"
    and s5: "invalidateUserMediaCache (userId msg) w4 = (Inr (), w')"
    by (subst (asm) bind_Inr) auto
  show ?thesis using key ft s1 s2 s3 s4 s5 by blast
qed

lemma set_prop_nonempty: "set_prop k v obj \<noteq> []"
  by (cases obj) (auto simp add: set_prop_def)

lemma dispatch_result:
  assumes "(if prefix ''image/'' ft then processImage key buf [(''size'', sz), (''contentType'', ct)]
            else if prefix ''video/'' ft then processVideo key buf [(''size'', sz), (''contentType'', ct)]
            else ret [(''size'', sz), (''contentType'', ct)]) w = (Inr md', w')"
  shows "md' \<noteq> []"
    and "thumbnailKey_of md' \<noteq> None \<longleftrightarrow> prefix ''image/'' ft \<or> prefix ''video/'' ft"
    and "media w' = media w" and "now w' = now w"
proof -
  consider (image) "prefix ''image/'' ft"
    | (video) "\<not> prefix ''image/'' ft" "prefix ''video/'' ft"
    | (other) "\<not> prefix ''image/'' ft" "\<not> prefix ''video/'' ft"
    by blast
  then have "md' \<noteq> [] \<and> (thumbnailKey_of md' \<noteq> None \<longleftrightarrow> prefix ''image/'' ft \<or> prefix ''video/'' ft)
     \<and> same_rows w w'"
  proof cases
    case image
    then have run: "processImage key buf [(''size'', sz), (''contentType'', ct)] w = (Inr md', w')"
      using assms by simp
    from processImage_success[OF run] stepsD[OF steps_processImage(1) run] image
    show ?thesis by (auto simp add: set_prop_nonempty thumbnailKey_of_image)
  next
    case video
    then have run: "processVideo key buf [(''size'', sz), (''contentType'', ct)] w = (Inr md', w')"
      using assms by simp
    from processVideo_Inr(1)[OF run] stepsD[OF steps_processVideo(1) run] video
    show ?thesis by (auto simp add: set_prop_nonempty thumbnailKey_of_video)
  next
    case other
    then have "md' = [(''size'', sz), (''contentType'', ct)]" and "w' = w"
      using assms by (auto simp add: ret_def)
    then show ?thesis using other
      by (simp add: thumbnailKey_of_def get_prop_def same_rows_def)
  qed
  then show "md' \<noteq> []"
    and "thumbnailKey_of md' \<noteq> None \<longleftrightarrow> prefix ''image/'' ft \<or> prefix ''video/'' ft"
    and "media w' = media w" and "now w' = now w"
    by (auto simp add: same_rows_def)
qed

section \<open>The record after a successful run\<close>

text \<open>
  Claim C1, as the code has it. After a run of \<open>processMedia\<close> that returns, the table
  has the same rows, and every row of the job's media has status \<open>ready\<close>, a metadata
  object that is not empty, no error message (so it is \<open>failed\<close> exactly when it has an
  error message: neither), and the current time as its processing time. Its thumbnail
  key is present exactly when the declared type starts with \<open>image/\<close> or \<open>video/\<close>: a
  pass-through job is \<open>ready\<close> without one.
\<close>

theorem successful_run_record:
  assumes run: "processMedia msg w = (Inr (), w')"
  shows "map row_id (media w') = map row_id (media w)
       \<and> (\<forall>r \<in> set (media w'). Some (row_id r) = mediaId msg \<longrightarrow>
            status r = ''ready''
          \<and> (\<exists>md. metadata r = Some md \<and> md \<noteq> [])
          \<and> error_message r = None
          \<and> processed_at r = Some (now w)
          \<and> (thumbnail_key r \<noteq> None \<longleftrightarrow>
               (\<exists>ft. fileType msg = Some ft \<and> (prefix ''image/'' ft \<or> prefix ''video/'' ft))))"
proof -
  from processMedia_try_Inr[OF processMedia_Inr[OF run]]
  obtain key ft obj md' w1 w2 w3 w4 where
        ft: "fileType msg = Some ft"
    and s1: "updateMediaStatus (mediaId msg) ''processing'' None w = (Inr (), w1)"
    and s2: "s3_getObject key w1 = (Inr obj, w2)"
    and s3: "(if prefix ''image/'' ft
              then processImage key (Body obj)
                     [(''size'', case ContentLength obj of Some n \<Rightarrow> JNum n | None \<Rightarrow> JUntracked),
                      (''contentType'', JStr (ContentType obj))]
              else if prefix ''video/'' ft
              then processVideo key (Body obj)
                     [(''size'', case ContentLength obj of Some n \<Rightarrow> JNum n | None \<Rightarrow> JUntracked),
                      (''contentType'', JStr (ContentType obj))]
              else ret [(''size'', case ContentLength obj of Some n \<Rightarrow> JNum n | None \<Rightarrow> JUntracked),
                        (''contentType'', JStr (ContentType obj))]) w2 = (Inr md', w3)"
    and s4: "updateMediaMetadata (mediaId msg) md' ''ready'' w3 = (Inr (), w4)"
    and s5: "invalidateUserMediaCache (userId msg) w4 = (Inr (), w')"
    by blast
  define f1 where "f1 = (\<lambda>r::media_row. if Some (row_id r) = mediaId msg
      then r\<lparr>status := ''processing'', error_message := None, updated_at := now w\<rparr> else r)"
  define f4 where "f4 = (\<lambda>r::media_row. if Some (row_id r) = mediaId msg
      then r\<lparr>status := ''ready'', metadata := Some md', thumbnail_key := thumbnailKey_of md',
              processed_at := Some (now w), updated_at := now w\<rparr> else r)"
  have m1: "media w1 = map f1 (media w)" and n1: "now w1 = now w"
    using updateMediaStatus_Inr[OF s1] by (simp_all add: f1_def)
  have m2: "media w2 = media w1" and n2: "now w2 = now w1"
    using stepsD[OF steps_s3_getObject(1) s2] by (simp_all add: same_rows_def)
  have m3: "media w3 = media w2" and n3: "now w3 = now w2"
    using dispatch_result(3,4)[OF s3] by simp_all
  have m4: "media w4 = map f4 (media w3)"
    using updateMediaMetadata_Inr[OF s4] n1 n2 n3 by (simp add: f4_def)
  have m5: "media w' = media w4"
    using stepsD[OF steps_invalidateUserMediaCache(1) s5] by (simp add: same_rows_def)
  have all: "media w' = map (f4 \<circ> f1) (media w)"
    by (simp add: m1 m2 m3 m4 m5)
  have ids: "row_id (f4 (f1 r)) = row_id r" for r
    by (simp add: f1_def f4_def)
  have rows: "status r' = ''ready'' \<and> metadata r' = Some md' \<and> error_message r' = None
        \<and> processed_at r' = Some (now w) \<and> thumbnail_key r' = thumbnailKey_of md'"
    if "r' \<in> set (media w')" "Some (row_id r') = mediaId msg" for r'
  proof -
    from that(1) obtain r where r': "r' = f4 (f1 r)" by (auto simp add: all)
    then have "Some (row_id r) = mediaId msg" using that(2) ids by simp
    then show ?thesis by (simp add: r' f1_def f4_def)
  qed
  have "map row_id (media w') = map row_id (media w)"
    by (simp add: all ids)
  then show ?thesis
    using rows dispatch_result(1,2)[OF s3] ft by auto
qed

theorem successful_run_record_witness:
  "fst (processMedia demo_job demo_world) = Inr ()
   \<and> map row_id (media (snd (processMedia demo_job demo_world))) = [''42'']
   \<and> list_all (\<lambda>r. status r = ''ready'' \<and> error_message r = None \<and> processed_at r = Some 20
                  \<and> thumbnail_key r \<noteq> None)
        (media (snd (processMedia demo_job demo_world)))"
proof -
  let ?run = "processMedia demo_job demo_world"
  have ok: "fst ?run = Inr ()" by code_simp
  then have run: "?run = (Inr (), snd ?run)" by (simp add: prod_eq_iff)
  note T = successful_run_record[OF run]
  have ids: "map row_id (media (snd ?run)) = [''42'']"
    using T by (simp add: demo_world_def demo_row_def)
  then have each: "Some (row_id r) = mediaId demo_job" if "r \<in> set (media (snd ?run))" for r
    using that by (auto simp add: demo_job_def)
  have "status r = ''ready'' \<and> error_message r = None \<and> processed_at r = Some 20
                  \<and> thumbnail_key r \<noteq> None" if "r \<in> set (media (snd ?run))" for r
    using T each[OF that] that by (auto simp add: demo_job_def demo_world_def)
  then show ?thesis using ok ids by (simp add: list_all_iff)
qed

text \<open>
  Claim C1 as stated fails on the pass-through branch: the PDF job ends \<open>ready\<close> with
  metadata and without a thumbnail key.
\<close>

theorem pass_through_counterexample:
  "fst (processMedia pdf_job demo_world) = Inr ()
   \<and> map (\<lambda>r. (status r, metadata r, thumbnail_key r))
        (media (snd (processMedia pdf_job demo_world)))
     = [(''ready'', Some [(''size'', JNum 12345), (''contentType'', JStr ''image/jpeg'')], None)]"
  by code_simp

section \<open>The batch\<close>

lemma handler_loop_Malformed:
  "body r = Malformed text \<Longrightarrow>
     handler_loop (r # rs) res w = (Inl (Error ''SyntaxError'' ''Unexpected token in JSON''), w)"
  by (simp add: bind_def try_catch_def lift_def throw_def)

lemma handler_loop_Descriptor:
  "body r = Descriptor msg \<Longrightarrow>
     handler_loop (r # rs) res w =
       (case processMedia msg w of
          (Inl e, w') \<Rightarrow> (Inl e, w')
        | (Inr u, w') \<Rightarrow> handler_loop rs (res\<lparr>successful := successful res @ [mediaId msg]\<rparr>) w')"
  by (simp add: bind_def try_catch_def lift_def throw_def ret_def split: prod.splits sum.splits)

lemma handler_loop_append:
  "handler_loop (xs @ ys) res w =
     (case handler_loop xs res w of
        (Inl e, w') \<Rightarrow> (Inl e, w')
      | (Inr res', w') \<Rightarrow> handler_loop ys res' w')"
proof (induction xs arbitrary: res w)
  case Nil
  then show ?case by (simp add: ret_def)
next
  case (Cons r xs)
  show ?case
  proof (cases "body r")
    case (Malformed t)
    then show ?thesis by (simp add: handler_loop_Malformed del: handler_loop.simps)
  next
    case (Descriptor msg)
    then show ?thesis
      by (simp add: handler_loop_Descriptor Cons del: handler_loop.simps
          split: prod.splits sum.splits)
  qed
qed

lemma handler_loop_Inr_all_good:
  "handler_loop rs res w = (Inr res', w') \<Longrightarrow> r \<in> set rs \<Longrightarrow>
     \<exists>msg. body r = Descriptor msg \<and> s3Key msg \<noteq> None \<and> fileType msg \<noteq> None"
proof (induction rs arbitrary: res w)
  case Nil
  then show ?case by simp
next
  case (Cons x rs)
  from Cons.prems(1) obtain msg where desc: "body x = Descriptor msg"
    by (cases "body x") (auto simp add: handler_loop_Malformed simp del: handler_loop.simps)
  from Cons.prems(1) desc obtain w1 where
    run: "processMedia msg w = (Inr (), w1)"
    and rest: "handler_loop rs (res\<lparr>successful := successful res @ [mediaId msg]\<rparr>) w1 = (Inr res', w')"
    by (auto simp add: handler_loop_Descriptor simp del: handler_loop.simps
        split: prod.splits sum.splits)
  from processMedia_try_Inr[OF processMedia_Inr[OF run]]
  have good: "s3Key msg \<noteq> None \<and> fileType msg \<noteq> None" by auto
  show ?case
  proof (cases "r = x")
    case True
    then show ?thesis using desc good by blast
  next
    case False
    then have "r \<in> set rs" using Cons.prems(2) by simp
    then show ?thesis using Cons.IH[OF rest] by blast
  qed
qed

text \<open>
  Claim C5, as the code has it. A batch that holds a record whose body does not parse,
  or whose descriptor lacks \<open>s3Key\<close> or \<open>fileType\<close>, ends with a raised error whatever
  the other records and the state are. (The code checks no field: the two missing
  fields are fatal because the object store's client and \<open>fileType.startsWith\<close> throw.)
\<close>

theorem bad_descriptor_fails_batch:
  assumes "r \<in> set (Records ev)"
      and "(\<exists>text. body r = Malformed text)
           \<or> (\<exists>msg. body r = Descriptor msg \<and> (s3Key msg = None \<or> fileType msg = None))"
  shows "\<exists>e w'. handler ev w = (Inl e, w')"
proof (cases "handler ev w")
  case (Pair res w')
  show ?thesis
  proof (cases res)
    case (Inl e)
    then show ?thesis using Pair by blast
  next
    case (Inr ok)
    then have "handler_loop (Records ev) \<lparr>successful = [], failed = []\<rparr> w = (Inr ok, w')"
      using Pair by (simp add: handler_def)
    from handler_loop_Inr_all_good[OF this assms(1)] assms(2)
    show ?thesis by auto
  qed
qed

theorem bad_descriptor_fails_batch_witness:
  "(\<exists>e. fst (handler \<lparr>Records = [demo_record, \<lparr>messageId = ''m-2'', body = Malformed ''{''\<rparr>]\<rparr> demo_world) = Inl e)
   \<and> (\<exists>e. fst (handler \<lparr>Records = [\<lparr>messageId = ''m-3'',
              body = Descriptor (demo_job\<lparr>fileType := None\<rparr>)\<rparr>, demo_record]\<rparr> demo_world) = Inl e)"
proof -
  let ?bad = "\<lparr>messageId = ''m-2'', body = Malformed ''{''\<rparr>"
  let ?untyped = "\<lparr>messageId = ''m-3'', body = Descriptor (demo_job\<lparr>fileType := None\<rparr>)\<rparr>"
  have "\<exists>e w'. handler \<lparr>Records = [demo_record, ?bad]\<rparr> demo_world = (Inl e, w')"
    by (rule bad_descriptor_fails_batch[of ?bad]) simp_all
  moreover have "\<exists>e w'. handler \<lparr>Records = [?untyped, demo_record]\<rparr> demo_world = (Inl e, w')"
    by (rule bad_descriptor_fails_batch[of ?untyped]) simp_all
  ultimately show ?thesis by auto
qed

text \<open>
  Claim C5 as stated fails for the other two fields: a descriptor without \<open>mediaId\<close>
  (the updates then select no row) or without \<open>userId\<close> (the cache keys are then those
  of the user \<open>undefined\<close>) is processed, and the batch returns.
\<close>

theorem missing_ids_counterexample:
  "fst (handler \<lparr>Records = [\<lparr>messageId = ''m-4'', body = Descriptor (demo_job\<lparr>mediaId := None\<rparr>)\<rparr>]\<rparr>
         demo_world) = Inr \<lparr>successful = [None], failed = []\<rparr>
   \<and> fst (handler \<lparr>Records = [\<lparr>messageId = ''m-5'', body = Descriptor (demo_job\<lparr>userId := None\<rparr>)\<rparr>]\<rparr>
         demo_world) = Inr \<lparr>successful = [Some ''42''], failed = []\<rparr>"
  by code_simp

section \<open>Failure of a job\<close>

text \<open>
  Claim C2, as the code has it. When the \<open>try\<close> block of \<open>processMedia\<close> throws \<open>e\<close>
  for a record that the batch reaches, the batch ends with a raised error in every
  case. When moreover the write of \<open>failed\<close> is served, the error raised is \<open>e\<close> itself,
  the table has the same rows, and every row of the job's media has status \<open>failed\<close>
  and the message of \<open>e\<close> as its error message.
\<close>

theorem failure_recorded_then_rethrown:
  assumes reach: "handler_loop pre res w = (Inr res1, w1)"
      and desc: "body r = Descriptor msg"
      and fail: "processMedia_try msg w1 = (Inl e, w2)"
  shows "(\<exists>e' w3. handler_loop (pre @ r # post) res w = (Inl e', w3))
       \<and> (\<forall>w3. updateMediaStatus (mediaId msg) ''failed'' (Some (message e)) w2 = (Inr (), w3) \<longrightarrow>
            handler_loop (pre @ r # post) res w = (Inl e, w3)
          \<and> map row_id (media w3) = map row_id (media w1)
          \<and> (\<forall>row \<in> set (media w3). Some (row_id row) = mediaId msg \<longrightarrow>
                status row = ''failed'' \<and> error_message row = Some (message e)))"
proof -
  have at_r: "handler_loop (pre @ r # post) res w =
       (case processMedia msg w1 of
          (Inl e, w') \<Rightarrow> (Inl e, w')
        | (Inr u, w') \<Rightarrow> handler_loop post (res1\<lparr>successful := successful res1 @ [mediaId msg]\<rparr>) w')"
    using reach desc by (simp add: handler_loop_append handler_loop_Descriptor del: handler_loop.simps)
  note pm = processMedia_of_try_Inl[OF fail]
  have raises: "\<exists>e' w3. processMedia msg w1 = (Inl e', w3)"
    unfolding pm by (auto simp add: bind_def throw_def split: prod.splits sum.splits)
  then have always: "\<exists>e' w3. handler_loop (pre @ r # post) res w = (Inl e', w3)"
    unfolding at_r by auto
  have recorded: "handler_loop (pre @ r # post) res w = (Inl e, w3)
          \<and> map row_id (media w3) = map row_id (media w1)
          \<and> (\<forall>row \<in> set (media w3). Some (row_id row) = mediaId msg \<longrightarrow>
                status row = ''failed'' \<and> error_message row = Some (message e))"
    if upd: "updateMediaStatus (mediaId msg) ''failed'' (Some (message e)) w2 = (Inr (), w3)" for w3
  proof -
    have "processMedia msg w1 = (Inl e, w3)"
      unfolding pm using upd by (simp add: bind_def throw_def)
    then have a: "handler_loop (pre @ r # post) res w = (Inl e, w3)"
      unfolding at_r by simp
    have "map row_id (media w2) = map row_id (media w1)"
      using stepsD[OF steps_processMedia_try(1) fail] by (simp add: same_row_ids_def)
    moreover have "map row_id (media w3) = map row_id (media w2)"
      using stepsD[OF steps_updateMediaStatus(1) upd] by (simp add: same_row_ids_def)
    ultimately have b: "map row_id (media w3) = map row_id (media w1)" by simp
    have c: "\<forall>row \<in> set (media w3). Some (row_id row) = mediaId msg \<longrightarrow>
                status row = ''failed'' \<and> error_message row = Some (message e)"
      using updateMediaStatus_Inr[OF upd] by auto
    show ?thesis using a b c by blast
  qed
  show ?thesis using always recorded by blast
qed

theorem failure_recorded_then_rethrown_witness:
  "fst (handler \<lparr>Records = [\<lparr>messageId = ''m-6'', body = Descriptor gone_job\<rparr>, demo_record]\<rparr> demo_world)
     = Inl (Error ''NoSuchKey'' ''The specified key does not exist.'')
   \<and> map (\<lambda>row. (row_id row, status row, error_message row))
        (media (snd (handler \<lparr>Records = [\<lparr>messageId = ''m-6'', body = Descriptor gone_job\<rparr>, demo_record]\<rparr>
                      demo_world)))
     = [(''42'', ''failed'', Some ''The specified key does not exist.'')]"
proof -
  let ?r = "\<lparr>messageId = ''m-6'', body = Descriptor gone_job\<rparr>"
  let ?e = "Error ''NoSuchKey'' ''The specified key does not exist.''"
  let ?res = "\<lparr>successful = [], failed = []\<rparr>"
  let ?attempt = "processMedia_try gone_job demo_world"
  let ?upd = "updateMediaStatus (mediaId gone_job) ''failed'' (Some (message ?e)) (snd ?attempt)"
  have reach: "handler_loop [] ?res demo_world = (Inr ?res, demo_world)" by (simp add: ret_def)
  have desc: "body ?r = Descriptor gone_job" by simp
  have "fst ?attempt = Inl ?e" by code_simp
  then have fail: "?attempt = (Inl ?e, snd ?attempt)" by (simp add: prod_eq_iff)
  have "fst ?upd = Inr ()" by code_simp
  then have upd: "?upd = (Inr (), snd ?upd)" by (simp add: prod_eq_iff)
  note T = failure_recorded_then_rethrown[OF reach desc fail, of "[demo_record]", THEN conjunct2,
      rule_format, OF upd]
  have run: "handler \<lparr>Records = [?r, demo_record]\<rparr> demo_world = (Inl ?e, snd ?upd)"
    using T by (simp add: handler_def)
  have rows: "map (\<lambda>row. (row_id row, status row, error_message row)) (media (snd ?upd))
     = [(''42'', ''failed'', Some ''The specified key does not exist.'')]"
    by code_simp
  show ?thesis unfolding run using rows by simp
qed

text \<open>
  Claim C2 as stated fails when the database rejects the write of \<open>failed\<close> too: the
  error of that write is the one raised, and the row is still \<open>pending\<close> with no error
  message.
\<close>

theorem failed_write_rejected_counterexample:
  "fst (processMedia demo_job
         (demo_world\<lparr>faults := [Some (Error ''Error'' ''Connection terminated''),
                                 Some (Error ''Error'' ''timeout exceeded'')]\<rparr>))
     = Inl (Error ''Error'' ''timeout exceeded'')
   \<and> map (\<lambda>row. (status row, error_message row))
        (media (snd (processMedia demo_job
         (demo_world\<lparr>faults := [Some (Error ''Error'' ''Connection terminated''),
                                 Some (Error ''Error'' ''timeout exceeded'')]\<rparr>))))
     = [(''pending'', None)]"
  by code_simp

section \<open>The listing\<close>

lemma set_alist_update: "set (AList.update k v al) \<subseteq> insert (k, v) (set al)"
  by (induction al) auto

lemma select_ready_media_ok: "listing_ok (select_ready_media uid rows)"
proof -
  let ?picked = "filter (\<lambda>r. user_id r = uid \<and> status r = ''ready'') rows"
  let ?ordered = "rev (sort_key created_at ?picked)"
  have "sorted (map created_at (sort_key created_at ?picked))" by (rule sorted_sort_key)
  then have "sorted_wrt (\<lambda>a b. created_at a \<le> created_at b) (sort_key created_at ?picked)"
    by (simp add: sorted_wrt_map)
  then have "sorted_wrt (\<lambda>a b. created_at b \<le> created_at a) ?ordered"
    by (simp add: sorted_wrt_rev)
  then have "sorted_wrt (\<lambda>a b. lr_created_at b \<le> lr_created_at a) (map select_columns ?ordered)"
    by (simp add: sorted_wrt_map select_columns_def)
  then have sorted: "sorted_wrt (\<lambda>a b. lr_created_at b \<le> lr_created_at a)
      (take 50 (map select_columns ?ordered))"
    by (rule sorted_wrt_take)
  have ready: "list_all (\<lambda>r. lr_status r = ''ready'') (take 50 (map select_columns ?ordered))"
    by (auto simp add: list_all_iff select_columns_def dest!: in_set_takeD)
  show ?thesis
    unfolding listing_ok_def select_ready_media_def using sorted ready by simp
qed

lemma get_api_media_Json:
  assumes "get_api_media uid w = (Json rows, w')"
  shows "(\<exists>e. (''user:'' @ uid @ '':media'', e) \<in> set (redis w) \<and> rows = payload e)
         \<or> rows = select_ready_media uid (media w)"
  using assms
  by (auto simp add: get_api_media_def Let_def bind_def redis_get_def pool_query_listing_def
        redis_setex_def ret_def service_call_def
      split: list.splits option.splits prod.splits sum.splits if_splits
      dest: map_of_SomeD)

lemma get_api_media_cache:
  "set (redis (snd (get_api_media uid w))) \<subseteq>
     insert (''user:'' @ uid @ '':media'',
             \<lparr>payload = select_ready_media uid (media w), expires_at = now w + 300\<rparr>) (set (redis w))"
  using set_alist_update[of "''user:'' @ uid @ '':media''"
      "\<lparr>payload = select_ready_media uid (media w), expires_at = now w + 300\<rparr>" "redis w"]
  by (auto simp add: get_api_media_def Let_def bind_def redis_get_def pool_query_listing_def
        redis_setex_def ret_def service_call_def
      split: list.splits option.splits prod.splits sum.splits if_splits)

lemma cache_inv_subset: "cache_inv w \<Longrightarrow> set (redis w') \<subseteq> set (redis w) \<Longrightarrow> cache_inv w'"
  by (auto simp add: cache_inv_def list_all_iff)

lemma cache_inv_listing: "cache_inv w \<Longrightarrow> cache_inv (snd (get_api_media uid w))"
  using get_api_media_cache[of uid w] select_ready_media_ok[of uid "media w"]
  by (auto simp add: cache_inv_def list_all_iff)

lemma cache_inv_handler: "cache_inv w \<Longrightarrow> cache_inv (snd (handler ev w))"
proof -
  assume inv: "cache_inv w"
  have "cache_shrinks w (snd (handler ev w))"
    using steps_handler_loop[of "Records ev" "\<lparr>successful = [], failed = []\<rparr>"]
    by (simp add: steps_def handler_def)
  then show ?thesis using inv by (auto intro: cache_inv_subset simp add: cache_shrinks_def)
qed

lemma reachable_cache_inv: "reachable w \<Longrightarrow> cache_inv w"
proof (induction rule: reachable.induct)
  case (start w)
  then show ?case by (simp add: cache_inv_def)
next
  case (listing w uid)
  then show ?case by (simp add: cache_inv_listing)
next
  case (worker w ev)
  then show ?case by (simp add: cache_inv_handler)
next
  case (other w w')
  then show ?case by (auto intro: cache_inv_subset)
qed

lemma get_api_media_rows:
  assumes "get_api_media uid w = (Json rows, w')"
  shows "rows = (case cached_listing uid w of Some p \<Rightarrow> p | None \<Rightarrow> select_ready_media uid (media w))"
  using assms
  by (auto simp add: get_api_media_def Let_def bind_def redis_get_def pool_query_listing_def
        redis_setex_def ret_def service_call_def cached_listing_def live_def
      split: list.splits option.splits prod.splits sum.splits if_splits)

lemma select_ready_media_rows:
  assumes "r \<in> set (select_ready_media uid rows)"
  shows "\<exists>m \<in> set rows. lr_id r = row_id m \<and> user_id m = uid \<and> status m = ''ready''"
proof -
  from assms have "r \<in> set (map select_columns
       (rev (sort_key created_at (filter (\<lambda>r. user_id r = uid \<and> status r = ''ready'') rows))))"
    unfolding select_ready_media_def by (rule in_set_takeD)
  then obtain m where "m \<in> set rows" "user_id m = uid" "status m = ''ready''" "r = select_columns m"
    by auto
  then show ?thesis by (auto simp add: select_columns_def)
qed

text \<open>
  Claim C10, as the code has it. In every state the system reaches from an empty cache,
  a listing response of \<open>GET /api/media\<close> has at most 50 rows in descending order of
  creation time, and every row carries the status \<open>ready\<close>. The response is the cached
  payload when the cache answers, and the result of the query otherwise; in the second
  case every row is a media of the user that is \<open>ready\<close> in the table at that moment,
  so none that is pending, processing or failed. (A cached payload is a listing as it
  was computed: the status it carries is the one the media had then.)
\<close>

theorem listing_ready_when_computed:
  assumes "reachable w" and "get_api_media uid w = (Json rows, w')"
  shows "length rows \<le> 50
       \<and> (\<forall>r \<in> set rows. lr_status r = ''ready'')
       \<and> sorted_wrt (\<lambda>a b. lr_created_at b \<le> lr_created_at a) rows
       \<and> rows = (case cached_listing uid w of Some p \<Rightarrow> p | None \<Rightarrow> select_ready_media uid (media w))
       \<and> (cached_listing uid w = None \<longrightarrow>
            (\<forall>r \<in> set rows. \<exists>m \<in> set (media w).
                lr_id r = row_id m \<and> user_id m = uid \<and> status m = ''ready''))"
proof -
  have inv: "cache_inv w" using assms(1) by (rule reachable_cache_inv)
  have "listing_ok rows"
    using get_api_media_Json[OF assms(2)] inv select_ready_media_ok[of uid "media w"]
    by (auto simp add: cache_inv_def list_all_iff)
  then have shape: "length rows \<le> 50 \<and> (\<forall>r \<in> set rows. lr_status r = ''ready'')
       \<and> sorted_wrt (\<lambda>a b. lr_created_at b \<le> lr_created_at a) rows"
    by (simp add: listing_ok_def list_all_iff)
  note rows = get_api_media_rows[OF assms(2)]
  have fresh: "\<forall>r \<in> set rows. \<exists>m \<in> set (media w).
                lr_id r = row_id m \<and> user_id m = uid \<and> status m = ''ready''"
    if "cached_listing uid w = None"
    using rows that select_ready_media_rows[of _ uid "media w"] by simp
  show ?thesis using shape rows fresh by blast
qed

text \<open>
  After the worker has processed media 42 the cache has no listing of user 7: the
  first response is read from the table and has the two ready media, newest first,
  without the failed one; the second response, from the cache, has ready rows only.
\<close>

theorem listing_ready_when_computed_witness:
  "reachable (snd (handler \<lparr>Records = [demo_record]\<rparr> busy_world))
   \<and> cached_listing ''7'' (snd (handler \<lparr>Records = [demo_record]\<rparr> busy_world)) = None
   \<and> map (\<lambda>r. (lr_id r, lr_status r, lr_created_at r))
        (case fst (get_api_media ''7'' (snd (handler \<lparr>Records = [demo_record]\<rparr> busy_world))) of
           Json rows \<Rightarrow> rows | Status500 e \<Rightarrow> [])
     = [(''42'', ''ready'', 10), (''41'', ''ready'', 5)]
   \<and> list_all (\<lambda>r. lr_status r = ''ready'')
        (case fst (get_api_media ''7'' (snd (get_api_media ''7''
                 (snd (handler \<lparr>Records = [demo_record]\<rparr> busy_world))))) of
           Json rows \<Rightarrow> rows | Status500 e \<Rightarrow> [])"
proof -
  let ?w = "snd (handler \<lparr>Records = [demo_record]\<rparr> busy_world)"
  let ?first = "get_api_media ''7'' ?w"
  let ?second = "get_api_media ''7'' (snd ?first)"
  have "redis busy_world = []" by (simp add: busy_world_def demo_world_def)
  then have r0: "reachable ?w" by (intro reachable.worker reachable.start)
  then have r1: "reachable (snd ?first)" by (rule reachable.listing)
  have miss: "cached_listing ''7'' ?w = None" by code_simp
  have fresh: "map (\<lambda>r. (lr_id r, lr_status r, lr_created_at r))
        (case fst ?first of Json rows \<Rightarrow> rows | Status500 e \<Rightarrow> [])
     = [(''42'', ''ready'', 10), (''41'', ''ready'', 5)]"
    by code_simp
  have "case fst ?second of Json rows \<Rightarrow> True | Status500 e \<Rightarrow> False"
    by code_simp
  then obtain rows where rows: "fst ?second = Json rows"
    by (cases "fst ?second") auto
  then have "?second = (Json rows, snd ?second)" by (simp add: prod_eq_iff)
  from listing_ready_when_computed[OF r1 this]
  have "\<forall>r \<in> set rows. lr_status r = ''ready''" by blast
  then have "list_all (\<lambda>r. lr_status r = ''ready'') rows" by (simp add: list_all_iff)
  then show ?thesis using r0 miss fresh rows by simp
qed

text \<open>
  Claim C10 as stated fails for a cached response: after the listing has been cached,
  the job of media 42 is delivered again and fails, which leaves the cache as it is
  (only a run that succeeds invalidates it); the table has the media \<open>failed\<close>, and the
  listing still shows it, as \<open>ready\<close>.
\<close>

theorem stale_listing_counterexample:
  "reachable stale_world
   \<and> map (\<lambda>m. (row_id m, user_id m, status m)) (media stale_world) = [(''42'', ''7'', ''failed'')]
   \<and> map (\<lambda>r. (lr_id r, lr_status r))
        (case fst (get_api_media ''7'' stale_world) of Json rows \<Rightarrow> rows | Status500 e \<Rightarrow> [])
     = [(''42'', ''ready'')]"
proof -
  let ?w1 = "snd (handler \<lparr>Records = [demo_record]\<rparr> demo_world)"
  let ?f = "[None, Some (Error ''TimeoutError'' ''Connection timed out'')]"
  have "redis demo_world = []" by (simp add: demo_world_def)
  then have "reachable ?w1" by (intro reachable.worker reachable.start)
  then have "reachable listed_world" unfolding listed_world_def by (rule reachable.listing)
  then have "reachable (listed_world\<lparr>faults := ?f\<rparr>)"
    by (rule reachable.other) simp
  then have r: "reachable stale_world" unfolding stale_world_def by (rule reachable.worker)
  have rest: "map (\<lambda>m. (row_id m, user_id m, status m)) (media stale_world) = [(''42'', ''7'', ''failed'')]
   \<and> map (\<lambda>r. (lr_id r, lr_status r))
        (case fst (get_api_media ''7'' stale_world) of Json rows \<Rightarrow> rows | Status500 e \<Rightarrow> [])
     = [(''42'', ''ready'')]"
    by code_simp
  show ?thesis using r rest by simp
qed

section \<open>Cache invalidation\<close>

lemma glob_star: "glob ''*'' s"
  by (induction s) simp_all

lemma glob_literal_step:
  "x \<notin> {CHR ''*'', CHR ''?'', CHR ''['', CHR 0x5C} \<Longrightarrow>
     glob (x # p) s = (case s of [] \<Rightarrow> False | c # s' \<Rightarrow> x = c \<and> glob p s')"
  by (cases s) simp_all

lemma glob_literal_star:
  assumes "\<forall>c \<in> set lit. c \<notin> {CHR ''*'', CHR ''?'', CHR ''['', CHR 0x5C}"
  shows "glob (lit @ ''*'') s \<longleftrightarrow> prefix lit s"
  using assms
proof (induction lit arbitrary: s)
  case Nil
  show ?case by (simp add: glob_star del: glob.simps)
next
  case (Cons x lit)
  then have x: "x \<notin> {CHR ''*'', CHR ''?'', CHR ''['', CHR 0x5C}"
    and IH: "\<And>s. glob (lit @ ''*'') s \<longleftrightarrow> prefix lit s"
    by simp_all
  show ?case
    by (cases s) (simp_all add: glob_literal_step[OF x] IH del: glob.simps)
qed

lemma digit_not_special:
  "c \<in> set ''0123456789'' \<Longrightarrow> c \<notin> {CHR ''*'', CHR ''?'', CHR ''['', CHR 0x5C}"
  by auto

lemma numeral_chars:
  assumes "is_numeral U"
  shows "\<forall>c \<in> set (''user:'' @ U @ '':media:''). c \<notin> {CHR ''*'', CHR ''?'', CHR ''['', CHR 0x5C}"
proof
  fix c assume "c \<in> set (''user:'' @ U @ '':media:'')"
  then consider "c \<in> set ''user:''" | "c \<in> set U" | "c \<in> set '':media:''"
    by (auto simp only: set_append Un_iff)
  then show "c \<notin> {CHR ''*'', CHR ''?'', CHR ''['', CHR 0x5C}"
  proof cases
    case 1 then show ?thesis by auto
  next
    case 2
    then have "c \<in> set ''0123456789''"
      using assms unfolding is_numeral_def list_all_iff by blast
    then show ?thesis by (rule digit_not_special)
  next
    case 3 then show ?thesis by auto
  qed
qed

lemma numeral_no_star: "is_numeral U \<Longrightarrow> CHR ''*'' \<notin> set (''user:'' @ U @ '':media'')"
proof
  assume num: "is_numeral U" and "CHR ''*'' \<in> set (''user:'' @ U @ '':media'')"
  then consider "CHR ''*'' \<in> set ''user:''" | "CHR ''*'' \<in> set U" | "CHR ''*'' \<in> set '':media''"
    by (auto simp only: set_append Un_iff)
  then show False
  proof cases
    case 1 then show ?thesis by simp
  next
    case 2
    then have "CHR ''*'' \<in> set ''0123456789''"
      using num unfolding is_numeral_def list_all_iff by blast
    then show ?thesis by simp
  next
    case 3 then show ?thesis by simp
  qed
qed

lemma redis_del_Inr:
  "redis_del keys w = (Inr u, w') \<Longrightarrow>
     w' = w\<lparr>faults := tl (faults w), redis := filter (\<lambda>ke. fst ke \<notin> set keys) (redis w)\<rparr>"
  by (cases "faults w")
     (auto simp add: redis_del_def bind_def service_call_def split: option.splits)

lemma live_faults: "live (w\<lparr>faults := fs\<rparr>) = live w"
  by (simp add: fun_eq_iff live_def)

lemma redis_keys_Inr:
  "redis_keys pattern w = (Inr keys, w') \<Longrightarrow>
     w' = w\<lparr>faults := tl (faults w)\<rparr> \<and> keys = filter (glob pattern) (cache_keys w)"
  by (cases "faults w")
     (auto simp add: redis_keys_def bind_def service_call_def cache_keys_def live_faults
      split: option.splits)

lemma invalidate_numeral:
  assumes run: "invalidateUserMediaCache (Some U) w = (Inr (), w')" and num: "is_numeral U"
  shows "\<forall>ke \<in> set (redis w'). fst ke \<noteq> ''user:'' @ U @ '':media''"
    and "\<forall>k \<in> set (cache_keys w'). \<not> prefix (''user:'' @ U @ '':media:'') k"
proof -
  let ?K = "''user:'' @ U @ '':media''"
  let ?P = "''user:'' @ U @ '':media:*''"
  have nostar: "CHR ''*'' \<notin> set ?K"
    using num by (rule numeral_no_star)
  have star: "CHR ''*'' \<in> set ?P" by simp
  have loop: "invalidate_loop [?K, ?P] w = (Inr (), w')"
    using run by (simp add: invalidateUserMediaCache_def template_def)
  from loop nostar obtain w1 where
    d1: "redis_del [?K] w = (Inr (), w1)"
    and rest: "invalidate_loop [?P] w1 = (Inr (), w')"
    by (auto simp add: bind_Inr simp del: append.simps set_append)
  from rest star obtain keys w2 where
    k: "redis_keys ?P w1 = (Inr keys, w2)"
    and d2: "(if keys \<noteq> [] then redis_del keys else ret ()) w2 = (Inr (), w')"
    by (auto simp add: bind_Inr ret_def simp del: append.simps set_append)
  note w1 = redis_del_Inr[OF d1]
  note w2 = redis_keys_Inr[OF k]
  have keys: "keys = filter (glob ?P) (cache_keys w2)"
    using w2 by (simp add: cache_keys_def live_faults)
  have gone1: "\<forall>ke \<in> set (redis w2). fst ke \<noteq> ?K"
    using w1 w2 by simp
  have glob_iff: "glob ?P k \<longleftrightarrow> prefix (''user:'' @ U @ '':media:'') k" for k
    using glob_literal_star[OF numeral_chars[OF num], of k] by simp
  show "\<forall>ke \<in> set (redis w'). fst ke \<noteq> ?K"
  proof (cases "keys = []")
    case True
    then show ?thesis using d2 gone1 by (simp add: ret_def)
  next
    case False
    then show ?thesis using redis_del_Inr[of keys w2 "()" w'] d2 gone1 by auto
  qed
  show "\<forall>k \<in> set (cache_keys w'). \<not> prefix (''user:'' @ U @ '':media:'') k"
  proof (cases "keys = []")
    case True
    then have "w' = w2" using d2 by (simp add: ret_def)
    then show ?thesis using True keys glob_iff by (auto simp add: filter_empty_conv)
  next
    case False
    then have w': "w' = w2\<lparr>faults := tl (faults w2), redis := filter (\<lambda>ke. fst ke \<notin> set keys) (redis w2)\<rparr>"
      using redis_del_Inr[of keys w2 "()" w'] d2 by simp
    show ?thesis
    proof
      fix k assume "k \<in> set (cache_keys w')"
      then have "k \<in> set (cache_keys w2)" and "k \<notin> set keys"
        unfolding w' by (auto simp add: cache_keys_def live_def)
      then have "\<not> glob ?P k" using keys by simp
      then show "\<not> prefix (''user:'' @ U @ '':media:'') k" using glob_iff by simp
    qed
  qed
qed

lemma get_api_media_miss:
  assumes "\<forall>ke \<in> set (redis w). fst ke \<noteq> ''user:'' @ uid @ '':media''"
  shows "fst (get_api_media uid w) = Json rows \<Longrightarrow> rows = select_ready_media uid (media w)"
    and "faults w = [] \<Longrightarrow> fst (get_api_media uid w) = Json (select_ready_media uid (media w))"
proof -
  have none: "map_of (redis w) (''user:'' @ uid @ '':media'') = None"
    using assms by (force simp add: map_of_eq_None_iff)
  show "fst (get_api_media uid w) = Json rows \<Longrightarrow> rows = select_ready_media uid (media w)"
    using none
    by (auto simp add: get_api_media_def Let_def bind_def redis_get_def pool_query_listing_def
          redis_setex_def ret_def service_call_def
        split: list.splits option.splits prod.splits sum.splits if_splits)
  show "faults w = [] \<Longrightarrow> fst (get_api_media uid w) = Json (select_ready_media uid (media w))"
    using none
    by (auto simp add: get_api_media_def Let_def bind_def redis_get_def pool_query_listing_def
          redis_setex_def ret_def service_call_def
        split: list.splits option.splits prod.splits sum.splits if_splits)
qed

text \<open>
  Claim C8, as the code has it. The cache keys are built from the \<open>userId\<close> of the job
  descriptor. After a run of \<open>processMedia\<close> that returns, for a descriptor that names
  user \<open>U\<close> (a numeral, as the database issues identifiers), the cache holds no visible
  entry under the listing key \<open>user:U:media\<close> nor under any key that starts with
  \<open>user:U:media:\<close>; a listing response for \<open>U\<close> read in that state is the result of the
  query on the table, never a cached payload, and it is that result when no request
  is rejected.
\<close>

theorem cache_invalidated_after_success:
  assumes run: "processMedia msg w = (Inr (), w')"
      and owner: "userId msg = Some U" and num: "is_numeral U"
  shows "(\<forall>k \<in> set (cache_keys w'). k \<noteq> ''user:'' @ U @ '':media''
                                      \<and> \<not> prefix (''user:'' @ U @ '':media:'') k)
       \<and> (\<forall>rows. fst (get_api_media U w') = Json rows \<longrightarrow> rows = select_ready_media U (media w'))
       \<and> (faults w' = [] \<longrightarrow> fst (get_api_media U w') = Json (select_ready_media U (media w')))"
proof -
  from processMedia_try_Inr[OF processMedia_Inr[OF run]] owner
  obtain w4 where inv: "invalidateUserMediaCache (Some U) w4 = (Inr (), w')"
    by auto
  note gone = invalidate_numeral[OF inv num]
  have "\<forall>k \<in> set (cache_keys w'). k \<noteq> ''user:'' @ U @ '':media''"
    using gone(1) by (auto simp add: cache_keys_def)
  then show ?thesis
    using gone(2) get_api_media_miss[OF gone(1)] by blast
qed

text \<open>
  With a stale empty listing cached for user 7: before the run the endpoint answers
  with it; after the run only the entry of user 77 is left, and the endpoint answers
  with the row read from the table.
\<close>

theorem cache_invalidated_after_success_witness:
  "is_numeral ''7''
   \<and> fst (get_api_media ''7'' cached_world) = Json []
   \<and> fst (processMedia demo_job cached_world) = Inr ()
   \<and> cache_keys (snd (processMedia demo_job cached_world)) = [''user:77:media'']
   \<and> fst (get_api_media ''7'' (snd (processMedia demo_job cached_world)))
       = Json (select_ready_media ''7'' (media (snd (processMedia demo_job cached_world))))
   \<and> map lr_id (select_ready_media ''7'' (media (snd (processMedia demo_job cached_world)))) = [''42'']"
proof -
  let ?run = "processMedia demo_job cached_world"
  have num: "is_numeral ''7''" by code_simp
  have before: "fst (get_api_media ''7'' cached_world) = Json []" by code_simp
  have ok: "fst ?run = Inr ()" by code_simp
  then have run: "?run = (Inr (), snd ?run)" by (simp add: prod_eq_iff)
  have owner: "userId demo_job = Some ''7''" by (simp add: demo_job_def)
  have quiet: "faults (snd ?run) = []" by code_simp
  have keys: "cache_keys (snd ?run) = [''user:77:media'']" by code_simp
  have rows: "map lr_id (select_ready_media ''7'' (media (snd ?run))) = [''42'']" by code_simp
  from cache_invalidated_after_success[OF run owner num] quiet
  have "fst (get_api_media ''7'' (snd ?run)) = Json (select_ready_media ''7'' (media (snd ?run)))"
    by blast
  then show ?thesis using num before ok keys rows by blast
qed

text \<open>
  Claim C8 as stated fails when the descriptor does not name the owner: for a job on
  media 42 of user 7 whose descriptor has no \<open>userId\<close>, or names user 77, the run
  returns, and the listing of user 7 is still answered from the cache with the empty
  payload stored before the run, while the table has media 42 ready.
\<close>

theorem foreign_descriptor_counterexample:
  "map (\<lambda>m. (row_id m, user_id m)) (media cached_world) = [(''42'', ''7'')]
   \<and> fst (processMedia (demo_job\<lparr>userId := None\<rparr>) cached_world) = Inr ()
   \<and> fst (get_api_media ''7'' (snd (processMedia (demo_job\<lparr>userId := None\<rparr>) cached_world))) = Json []
   \<and> map lr_id (select_ready_media ''7''
        (media (snd (processMedia (demo_job\<lparr>userId := None\<rparr>) cached_world)))) = [''42'']
   \<and> fst (processMedia (demo_job\<lparr>userId := Some ''77''\<rparr>) cached_world) = Inr ()
   \<and> fst (get_api_media ''7'' (snd (processMedia (demo_job\<lparr>userId := Some ''77''\<rparr>) cached_world))) = Json []"
  by code_simp

section \<open>The processing time\<close>















end
